theory Spec2Isabelle
  imports
    Complex_Main
    "HOL-Library.Word"
    "HOL-Library.Multiset"
    "HOL-Library.AList"
    "HOL-Library.Char_ord"
    "HOL-Library.List_Lexorder"
    "HOL-Library.Product_Lexorder"
begin

section \<open>The ClickHouse tables of MeshExplorer\<close>

text \<open>
  The schema document declares three MergeTree tables and the materialized view
  \<open>meshcore_adverts_latest\<close>. A row is a record with the declared columns; what a
  table stores of the rows inserted into it is modelled in the sections below.

  \<^item> \<open>DateTime64(3)\<close> is a count of milliseconds since the epoch: \<open>int\<close>.
  \<^item> \<open>UInt8\<close> is \<open>8 word\<close>, \<open>Nullable(Int32)\<close> is \<open>32 word option\<close>.
  \<^item> \<open>Nullable(Float64)\<close> is \<open>'f option\<close>: the view only stores and copies
    coordinates, it never computes with them, so the float type is a parameter.
  \<^item> \<open>String\<close>, \<open>LowCardinality(String)\<close> and \<open>FixedString(32)\<close> are \<open>string\<close>.
\<close>

type_synonym datetime64 = int

record 'f advert =
  ingest_timestamp :: datetime64
  mesh_timestamp :: datetime64
  adv_timestamp :: datetime64
  public_key :: string
  node_name :: string
  latitude :: "'f option"
  longitude :: "'f option"
  altitude :: "32 word option"
  has_location :: "8 word"
  is_repeater :: "8 word"
  is_chat_node :: "8 word"
  is_room_server :: "8 word"
  has_name :: "8 word"
  broker :: string
  topic :: string
  path :: string
  path_len :: "8 word"
  origin_pubkey :: string
  origin :: string
  packet_hash :: string

text \<open>The columns of \<open>meshcore_adverts_latest\<close>, in the order of its SELECT list.\<close>

record 'f adverts_latest =
  latest_public_key :: string
  latest_node_name :: string
  latest_latitude :: "'f option"
  latest_longitude :: "'f option"
  latest_altitude :: "32 word option"
  latest_has_location :: "8 word"
  latest_is_repeater :: "8 word"
  latest_is_chat_node :: "8 word"
  latest_is_room_server :: "8 word"
  latest_has_name :: "8 word"
  latest_broker :: string
  latest_topic :: string
  first_seen :: datetime64
  last_seen :: datetime64
  advert_count :: nat

text \<open>
  The table \<open>meshcore_packets\<close>, with the columns the schema document lists. The
  field names carry the prefix \<open>pkt_\<close> because \<open>meshcore_adverts\<close> has columns of the
  same names.
\<close>

record packet =
  pkt_ingest_timestamp :: datetime64
  pkt_mesh_timestamp :: datetime64
  pkt_broker :: string
  pkt_topic :: string
  pkt_packet :: string
  pkt_payload :: string
  pkt_path_len :: "8 word"
  pkt_path :: string
  pkt_route_type :: "8 word"
  pkt_payload_type :: "8 word"
  pkt_payload_version :: "8 word"
  pkt_header :: string
  pkt_origin_pubkey :: string

section \<open>Partitions and sorting keys\<close>

text \<open>
  \<open>PARTITION BY toYYYYMM(ingest_timestamp)\<close>: the partition of a row is the
  calendar month of its ingest time, as the number \<open>100 * year + month\<close>. The
  month is found by walking from January 1970 over whole months (times are read in
  UTC; a time before the epoch, which no ingest clock produces, falls into 197001).
\<close>

definition is_leap_year :: "int \<Rightarrow> bool" where
  "is_leap_year y = (y mod 4 = 0 \<and> (y mod 100 \<noteq> 0 \<or> y mod 400 = 0))"

definition days_in_month :: "int \<Rightarrow> int \<Rightarrow> int" where
  "days_in_month y m =
     (if m = 2 then (if is_leap_year y then 29 else 28)
      else if m = 4 \<or> m = 6 \<or> m = 9 \<or> m = 11 then 30 else 31)"

lemma days_in_month_pos: "0 < days_in_month y m"
  by (simp add: days_in_month_def)

function month_from :: "int \<Rightarrow> int \<Rightarrow> int \<Rightarrow> int" where
  "month_from y m d =
     (if d < days_in_month y m then y * 100 + m
      else if m = 12 then month_from (y + 1) 1 (d - days_in_month y m)
      else month_from y (m + 1) (d - days_in_month y m))"
  by pat_completeness auto
termination
proof (relation "measure (\<lambda>(y, m, d). nat d)")
  show "wf (measure (\<lambda>(y, m, d). nat d))" by simp
next
  fix y m d :: int
  assume "\<not> d < days_in_month y m"
  then show "((y + 1, 1, d - days_in_month y m), (y, m, d)) \<in> measure (\<lambda>(y, m, d). nat d)"
    using days_in_month_pos [of y m] by simp
next
  fix y m d :: int
  assume "\<not> d < days_in_month y m"
  then show "((y, m + 1, d - days_in_month y m), (y, m, d)) \<in> measure (\<lambda>(y, m, d). nat d)"
    using days_in_month_pos [of y m] by simp
qed

declare month_from.simps [simp del]

definition toYYYYMM :: "datetime64 \<Rightarrow> int" where
  "toYYYYMM t = month_from 1970 1 (t div 86400000)"

subsection \<open>Data parts\<close>

text \<open>
  A MergeTree table stores its rows in data parts. Every INSERT writes one part for
  each partition that its rows fall into, and a part holds its rows sorted by the
  \<open>ORDER BY\<close> key of the table (rows with the same key stay in the order of the
  INSERT). A table is the list of its parts, in the order they were written.
\<close>

definition partition_ids :: "('r \<Rightarrow> datetime64) \<Rightarrow> 'r list \<Rightarrow> int list" where
  "partition_ids ts rows = sort (remdups (map (\<lambda>r. toYYYYMM (ts r)) rows))"

definition parts_of_insert :: "('r \<Rightarrow> datetime64) \<Rightarrow> ('r \<Rightarrow> 'k::linorder) \<Rightarrow> 'r list \<Rightarrow> 'r list list" where
  "parts_of_insert ts key block =
     map (\<lambda>b. sort_key key (filter (\<lambda>r. toYYYYMM (ts r) = b) block)) (partition_ids ts block)"

text \<open>
  In the background ClickHouse merges parts of one partition into a larger part,
  again sorted by the key. \<open>OPTIMIZE TABLE ... FINAL\<close>, the weekly task of the schema
  document, merges all parts of every partition: the table then looks as if all
  its rows had come in one INSERT.
\<close>

definition merge_parts :: "('r \<Rightarrow> 'k::linorder) \<Rightarrow> 'r list \<Rightarrow> 'r list \<Rightarrow> 'r list" where
  "merge_parts key p q = sort_key key (p @ q)"

definition optimize_final :: "('r \<Rightarrow> datetime64) \<Rightarrow> ('r \<Rightarrow> 'k::linorder) \<Rightarrow> 'r list list \<Rightarrow> 'r list list" where
  "optimize_final ts key parts = parts_of_insert ts key (concat parts)"

text \<open>
  \<open>meshcore_packets\<close> is \<open>ORDER BY (ingest_timestamp, broker, topic)\<close> and
  \<open>meshcore_adverts\<close> is \<open>ORDER BY (public_key, ingest_timestamp)\<close>; tuples and
  strings are compared lexicographically.
\<close>

definition packets_order_by :: "packet \<Rightarrow> datetime64 \<times> string \<times> string" where
  "packets_order_by r = (pkt_ingest_timestamp r, pkt_broker r, pkt_topic r)"

definition adverts_order_by :: "'f advert \<Rightarrow> string \<times> datetime64" where
  "adverts_order_by r = (public_key r, ingest_timestamp r)"

text \<open>
  A time-range read, as in \<open>SELECT * FROM t WHERE ingest_timestamp >= lo AND
  ingest_timestamp <= hi AND pred\<close>. The model reads the parts one after the other
  and each part in stored order; ClickHouse promises no order for a SELECT without
  \<open>ORDER BY\<close>, and what is proved of \<open>scan\<close> below is which rows it returns. A
  query that ends in \<open>ORDER BY ingest_timestamp\<close> sorts what it read.
\<close>

definition scan :: "('r \<Rightarrow> datetime64) \<Rightarrow> ('r \<Rightarrow> bool) \<Rightarrow> datetime64 \<Rightarrow> datetime64 \<Rightarrow> 'r list list \<Rightarrow> 'r list" where
  "scan ts pred lo hi parts = filter (\<lambda>r. lo \<le> ts r \<and> ts r \<le> hi \<and> pred r) (concat parts)"

definition order_by :: "('r \<Rightarrow> 'k::linorder) \<Rightarrow> 'r list \<Rightarrow> 'r list" where
  "order_by key rows = sort_key key rows"

subsection \<open>Expiry\<close>

text \<open>
  The schema document gives the tables a retention of 90 days, set as a TTL on the
  ingest time (\<open>MODIFY TTL ingest_timestamp + INTERVAL 180 DAY\<close> changes it). A
  row is expired once its TTL time is not later than the current time, and a merge
  that applies the TTL rewrites a part without its expired rows; a part left with
  no row disappears. \<open>ttl_merge\<close> is the table after such a merge of all its parts
  at the time \<open>now\<close>.
\<close>

definition ttl_expired :: "datetime64 \<Rightarrow> datetime64 \<Rightarrow> datetime64 \<Rightarrow> bool" where
  "ttl_expired now ttl t = (t + ttl \<le> now)"

definition ttl_merge :: "('r \<Rightarrow> datetime64) \<Rightarrow> datetime64 \<Rightarrow> datetime64 \<Rightarrow> 'r list list \<Rightarrow> 'r list list" where
  "ttl_merge ts now ttl parts =
     filter (\<lambda>p. p \<noteq> []) (map (filter (\<lambda>r. \<not> ttl_expired now ttl (ts r))) parts)"

section \<open>The materialized view \<open>meshcore_adverts_latest\<close>\<close>

subsection \<open>Aggregate functions\<close>

text \<open>
  ClickHouse evaluates an aggregate function by feeding the rows of the group, one
  after the other, to a state. \<open>argMax(arg, val)\<close> keeps the pair with the greatest
  \<open>val\<close> met so far and replaces it only by a strictly greater one. The model feeds
  the rows of an inserted block in the order of the block, so that among rows with
  the same greatest \<open>val\<close> the first one stays; the ClickHouse reference promises
  no particular choice among such rows, so the theorems below assume distinct ingest
  times wherever the choice would matter, and the one example that shows the
  choice says so. A row whose \<open>arg\<close> is
  NULL is skipped, as the reference states for \<open>argMax\<close>: a Nullable column
  therefore yields the value of the latest row in which it is not NULL, and NULL
  when there is none.
\<close>

definition argMax_add :: "('a \<times> 'k::linorder) option \<Rightarrow> 'a \<Rightarrow> 'k \<Rightarrow> ('a \<times> 'k) option" where
  "argMax_add st a k =
     (case st of
        None \<Rightarrow> Some (a, k)
      | Some (b, m) \<Rightarrow> if m < k then Some (a, k) else Some (b, m))"

definition argMax_state :: "('r \<Rightarrow> 'a) \<Rightarrow> ('r \<Rightarrow> 'k::linorder) \<Rightarrow> 'r list \<Rightarrow> ('a \<times> 'k) option" where
  "argMax_state arg val rows = fold (\<lambda>r st. argMax_add st (arg r) (val r)) rows None"

text \<open>The result on a column that is not Nullable; \<open>d\<close> is the column type's default,
  which ClickHouse returns for a state that met no row.\<close>

definition argMax :: "'a \<Rightarrow> ('r \<Rightarrow> 'a) \<Rightarrow> ('r \<Rightarrow> 'k::linorder) \<Rightarrow> 'r list \<Rightarrow> 'a" where
  "argMax d arg val rows = (case argMax_state arg val rows of None \<Rightarrow> d | Some (a, _) \<Rightarrow> a)"

definition non_null :: "('r \<Rightarrow> 'a option) \<Rightarrow> 'r list \<Rightarrow> ('r \<times> 'a) list" where
  "non_null arg rows = List.map_filter (\<lambda>r. map_option (Pair r) (arg r)) rows"

definition argMax_nullable :: "('r \<Rightarrow> 'a option) \<Rightarrow> ('r \<Rightarrow> 'k::linorder) \<Rightarrow> 'r list \<Rightarrow> 'a option" where
  "argMax_nullable arg val rows =
     map_option fst (argMax_state snd (\<lambda>p. val (fst p)) (non_null arg rows))"

definition min_agg :: "'k \<Rightarrow> ('r \<Rightarrow> 'k::linorder) \<Rightarrow> 'r list \<Rightarrow> 'k" where
  "min_agg d val rows = (case rows of [] \<Rightarrow> d | r # rs \<Rightarrow> fold (\<lambda>x m. min m (val x)) rs (val r))"

definition max_agg :: "'k \<Rightarrow> ('r \<Rightarrow> 'k::linorder) \<Rightarrow> 'r list \<Rightarrow> 'k" where
  "max_agg d val rows = (case rows of [] \<Rightarrow> d | r # rs \<Rightarrow> fold (\<lambda>x m. max m (val x)) rs (val r))"

subsection \<open>The SELECT of the view\<close>

text \<open>
  \<open>SELECT public_key, argMax(node_name, ingest_timestamp) ..., min(ingest_timestamp),
  max(ingest_timestamp), count() FROM meshcore_adverts GROUP BY public_key\<close>,
  evaluated over a list of rows: \<open>latest_of k g\<close> is the row of the group \<open>g\<close>
  with key \<open>k\<close>, and there is one row for each key that occurs.
\<close>

definition latest_of :: "string \<Rightarrow> 'f advert list \<Rightarrow> 'f adverts_latest" where
  "latest_of k g =
     \<lparr> latest_public_key = k,
       latest_node_name = argMax [] node_name ingest_timestamp g,
       latest_latitude = argMax_nullable latitude ingest_timestamp g,
       latest_longitude = argMax_nullable longitude ingest_timestamp g,
       latest_altitude = argMax_nullable altitude ingest_timestamp g,
       latest_has_location = argMax 0 has_location ingest_timestamp g,
       latest_is_repeater = argMax 0 is_repeater ingest_timestamp g,
       latest_is_chat_node = argMax 0 is_chat_node ingest_timestamp g,
       latest_is_room_server = argMax 0 is_room_server ingest_timestamp g,
       latest_has_name = argMax 0 has_name ingest_timestamp g,
       latest_broker = argMax [] broker ingest_timestamp g,
       latest_topic = argMax [] topic ingest_timestamp g,
       first_seen = min_agg 0 ingest_timestamp g,
       last_seen = max_agg 0 ingest_timestamp g,
       advert_count = length g \<rparr>"

definition group_by_key :: "string \<Rightarrow> 'f advert list \<Rightarrow> 'f advert list" where
  "group_by_key k rows = filter (\<lambda>r. public_key r = k) rows"

definition adverts_latest_select :: "'f advert list \<Rightarrow> 'f adverts_latest list" where
  "adverts_latest_select rows =
     map (\<lambda>k. latest_of k (group_by_key k rows)) (remdups (map public_key rows))"

text \<open>The row of the SELECT for the key \<open>k\<close>, or nothing when no row has this
  key.\<close>

definition select_node :: "'f advert list \<Rightarrow> string \<Rightarrow> 'f adverts_latest option" where
  "select_node rows k = find (\<lambda>s. latest_public_key s = k) (adverts_latest_select rows)"


subsection \<open>Reading a row of the SELECT\<close>

text \<open>
  What a Nullable \<open>argMax\<close> column holds: NULL when the column is NULL in every row
  of the group, and otherwise the value of a row in which it is not NULL and whose
  \<open>val\<close> is greatest among such rows.
\<close>

definition latest_non_null :: "('r \<Rightarrow> 'a option) \<Rightarrow> ('r \<Rightarrow> 'k::linorder) \<Rightarrow> 'r list \<Rightarrow> 'a option \<Rightarrow> bool" where
  "latest_non_null arg val g res =
     (case res of
        None \<Rightarrow> \<forall>r\<in>set g. arg r = None
      | Some v \<Rightarrow> \<exists>r\<in>set g. arg r = Some v \<and> (\<forall>x\<in>set g. arg x \<noteq> None \<longrightarrow> val x \<le> val r))"

subsection \<open>The database\<close>

text \<open>
  The two MergeTree tables as lists of parts, and the table behind the materialized
  view as the list of the rows written to it, oldest first. A materialized view is
  an insert trigger: ClickHouse evaluates its SELECT over each block of rows
  inserted into \<open>meshcore_adverts\<close>, never over the table, and appends the result
  to the view's own table. (The table \<open>meshcore_public_channel_messages\<close> plays no
  part in what follows.)
\<close>

record 'f database =
  meshcore_packets :: "packet list list"
  meshcore_adverts :: "'f advert list list"
  meshcore_adverts_latest :: "'f adverts_latest list"

definition empty_database :: "'f database" where
  "empty_database = \<lparr> meshcore_packets = [], meshcore_adverts = [], meshcore_adverts_latest = [] \<rparr>"

definition insert_packets :: "packet list \<Rightarrow> 'f database \<Rightarrow> 'f database" where
  "insert_packets block db =
     db\<lparr> meshcore_packets :=
           meshcore_packets db @ parts_of_insert pkt_ingest_timestamp packets_order_by block \<rparr>"

definition insert_adverts :: "'f advert list \<Rightarrow> 'f database \<Rightarrow> 'f database" where
  "insert_adverts block db =
     db\<lparr> meshcore_adverts :=
           meshcore_adverts db @ parts_of_insert ingest_timestamp adverts_order_by block,
         meshcore_adverts_latest := meshcore_adverts_latest db @ adverts_latest_select block \<rparr>"

text \<open>The database after INSERTs of packets and INSERTs of adverts, starting from
  empty tables.\<close>

definition database_after :: "packet list list \<Rightarrow> 'f advert list list \<Rightarrow> 'f database" where
  "database_after packet_blocks advert_blocks =
     fold insert_adverts advert_blocks (fold insert_packets packet_blocks empty_database)"

text \<open>
  The TTL is a setting of the three MergeTree tables; the view's table has none.
\<close>

definition apply_ttl :: "datetime64 \<Rightarrow> datetime64 \<Rightarrow> 'f database \<Rightarrow> 'f database" where
  "apply_ttl now ttl db =
     db\<lparr> meshcore_packets := ttl_merge pkt_ingest_timestamp now ttl (meshcore_packets db),
         meshcore_adverts := ttl_merge ingest_timestamp now ttl (meshcore_adverts db) \<rparr>"

text \<open>
  \<open>SELECT * FROM meshcore_adverts_latest WHERE public_key = k\<close> returns the rows
  written for \<open>k\<close>: one for every inserted block with an advert of \<open>k\<close>, as long
  as the view's table has not been merged.
\<close>

definition select_latest :: "'f database \<Rightarrow> string \<Rightarrow> 'f adverts_latest list" where
  "select_latest db k = filter (\<lambda>s. latest_public_key s = k) (meshcore_adverts_latest db)"

text \<open>
  The view's table is \<open>ENGINE = ReplacingMergeTree(ingest_timestamp) ORDER BY
  public_key\<close>: a merge keeps, of the rows with the same \<open>public_key\<close>, the one
  with the greatest version, and of several with that version the one written
  last. The version column is named \<open>ingest_timestamp\<close>, which is no column of
  the SELECT; the version is therefore a parameter \<open>ver\<close> of the model, and the
  examples take \<open>last_seen\<close> for it, the ingest time of the newest advert behind a
  row. \<open>get_node ver db k\<close> is the row of \<open>k\<close> once the view's table is merged
  (or read with \<open>FINAL\<close>).
\<close>

definition replace_step :: "('s \<Rightarrow> 'v::linorder) \<Rightarrow> 's \<Rightarrow> 's option \<Rightarrow> 's option" where
  "replace_step ver x st =
     (case st of
        None \<Rightarrow> Some x
      | Some y \<Rightarrow> if ver y \<le> ver x then Some x else Some y)"

definition replacing :: "('s \<Rightarrow> 'v::linorder) \<Rightarrow> 's list \<Rightarrow> 's option" where
  "replacing ver rows = fold (replace_step ver) rows None"

definition get_node :: "('f adverts_latest \<Rightarrow> 'v::linorder) \<Rightarrow> 'f database \<Rightarrow> string \<Rightarrow> 'f adverts_latest option" where
  "get_node ver db k = replacing ver (select_latest db k)"

subsection \<open>The merge rule of the specification\<close>

text \<open>
  The Latest-State Materializer in the words of the specification (section 4.4), to
  be compared with the view's SELECT. A first advert creates the NodeState; a later one
  replaces the fields sourced from the advert (name, coordinates, capability bits,
  broker and topic) if and only if its ingest time is strictly greater than the
  current \<open>last_seen\<close>; \<open>first_seen\<close> is the minimum, \<open>last_seen\<close> the maximum,
  and the count grows with every advert.
\<close>

definition spec_node_state_of :: "'f advert \<Rightarrow> 'f adverts_latest" where
  "spec_node_state_of r =
     \<lparr> latest_public_key = public_key r,
       latest_node_name = node_name r,
       latest_latitude = latitude r,
       latest_longitude = longitude r,
       latest_altitude = altitude r,
       latest_has_location = has_location r,
       latest_is_repeater = is_repeater r,
       latest_is_chat_node = is_chat_node r,
       latest_is_room_server = is_room_server r,
       latest_has_name = has_name r,
       latest_broker = broker r,
       latest_topic = topic r,
       first_seen = ingest_timestamp r,
       last_seen = ingest_timestamp r,
       advert_count = 1 \<rparr>"

definition spec_replace_fields :: "'f adverts_latest \<Rightarrow> 'f advert \<Rightarrow> 'f adverts_latest" where
  "spec_replace_fields s r =
     s\<lparr> latest_node_name := node_name r,
        latest_latitude := latitude r,
        latest_longitude := longitude r,
        latest_altitude := altitude r,
        latest_has_location := has_location r,
        latest_is_repeater := is_repeater r,
        latest_is_chat_node := is_chat_node r,
        latest_is_room_server := is_room_server r,
        latest_has_name := has_name r,
        latest_broker := broker r,
        latest_topic := topic r \<rparr>"

definition spec_merge :: "'f adverts_latest option \<Rightarrow> 'f advert \<Rightarrow> 'f adverts_latest option" where
  "spec_merge st r =
     (case st of
        None \<Rightarrow> Some (spec_node_state_of r)
      | Some s \<Rightarrow>
          Some ((if last_seen s < ingest_timestamp r then spec_replace_fields s r else s)
                 \<lparr> first_seen := min (first_seen s) (ingest_timestamp r),
                   last_seen := max (last_seen s) (ingest_timestamp r),
                   advert_count := advert_count s + 1 \<rparr>))"

definition spec_materialize :: "'f advert list \<Rightarrow> string \<Rightarrow> 'f adverts_latest option" where
  "spec_materialize rows k = fold (\<lambda>r st. spec_merge st r) (group_by_key k rows) None"

section \<open>The neighbour query\<close>

text \<open>
  The subquery of the query "Get Node Neighbors" of the schema document:
  \<open>neighbor_keys\<close> is the UNION of the keys of the nodes that \<open>k\<close> hears directly and
  of the nodes that hear \<open>k\<close> directly, taken from the adverts with \<open>path_len = 0\<close>.
  \<open>hex\<close> is ClickHouse's: two upper-case hexadecimal digits for each byte.
\<close>

definition hex_digit :: "nat \<Rightarrow> char" where
  "hex_digit n = ''0123456789ABCDEF'' ! (n mod 16)"

definition hex :: "string \<Rightarrow> string" where
  "hex s = concat (map (\<lambda>c. [hex_digit (of_char c div 16), hex_digit (of_char c)]) s)"

definition neighbor_keys :: "'f advert list \<Rightarrow> string \<Rightarrow> string list" where
  "neighbor_keys rows k =
     remdups (map public_key (filter (\<lambda>r. hex (origin_pubkey r) = k \<and> path_len r = 0) rows)
            @ map (\<lambda>r. hex (origin_pubkey r)) (filter (\<lambda>r. public_key r = k \<and> path_len r = 0) rows))"

section \<open>The route \<open>POST /api/wardrive/put-sample\<close>\<close>

text \<open>
  The handler parses the request body as JSON, overwrites \<open>path\<close> with
  \<open>body.path.join('')\<close>, hands the body to \<open>putSample\<close> and answers. A value
  produced by \<open>JSON.parse\<close> is one of the following; an object is the list of its
  properties in insertion order, each key once. The number type is a parameter, and
  so is the function \<open>ns\<close> that prints a number as JavaScript does.
\<close>

datatype 'n json =
    JNull
  | JBool bool
  | JNum 'n
  | JStr string
  | JArr "'n json list"
  | JObj "(string \<times> 'n json) list"

text \<open>
  What a \<open>throw\<close> can carry. \<open>JsError m\<close> is an instance of \<open>Error\<close> (a
  \<open>TypeError\<close> or \<open>SyntaxError\<close> as well) whose property \<open>message\<close> is
  \<open>undefined\<close> (\<open>None\<close>) or a value without methods of its own: a string as a
  rule, but nothing in JavaScript keeps it one. \<open>HostError r\<close> is an instance of
  \<open>Error\<close> with any other \<open>message\<close>, given by what evaluating
  \<open>error.message.includes('ClickHouse')\<close> does: it throws, or it returns a value
  that counts as true or as false. \<open>NotAnError\<close> is a thrown value that is no
  instance of \<open>Error\<close>.
\<close>

datatype 'n thrown =
    JsError "'n json option"
  | HostError "'n thrown + bool"
  | NotAnError

text \<open>
  A \<open>TypeError\<close> raised by the engine; the messages are V8's.
\<close>

definition type_error :: "string \<Rightarrow> 'n thrown" where
  "type_error m = JsError (Some (JStr m))"

text \<open>
  \<open>String.prototype.includes\<close>: the argument occurs somewhere in the string.
\<close>

fun starts_with :: "string \<Rightarrow> string \<Rightarrow> bool" where
  "starts_with s [] = True"
| "starts_with [] (c # cs) = False"
| "starts_with (x # xs) (c # cs) = (x = c \<and> starts_with xs cs)"

fun str_includes :: "string \<Rightarrow> string \<Rightarrow> bool" where
  "str_includes [] sub = starts_with [] sub"
| "str_includes (x # xs) sub = (starts_with (x # xs) sub \<or> str_includes xs sub)"

text \<open>
  \<open>Array.prototype.join\<close> turns every element into a string and puts the separator
  between them. \<open>element_string\<close> is the string of one element: \<open>null\<close> gives
  the empty string, a nested array is joined with a comma, an object without a
  property \<open>toString\<close> of its own is printed by \<open>Object.prototype.toString\<close>;
  with one (a parsed value is never callable) the conversion to a primitive fails
  with a \<open>TypeError\<close>.
\<close>

fun element_string :: "('n \<Rightarrow> string) \<Rightarrow> 'n json \<Rightarrow> 'n thrown + string"
  and join :: "('n \<Rightarrow> string) \<Rightarrow> string \<Rightarrow> 'n json list \<Rightarrow> 'n thrown + string" where
  "element_string ns JNull = Inr []"
| "element_string ns (JBool b) = Inr (if b then ''true'' else ''false'')"
| "element_string ns (JNum n) = Inr (ns n)"
| "element_string ns (JStr s) = Inr s"
| "element_string ns (JArr xs) = join ns '','' xs"
| "element_string ns (JObj kvs) =
     (if ''toString'' \<in> fst ` set kvs
      then Inl (type_error ''Cannot convert object to primitive value'')
      else Inr ''[object Object]'')"
| "join ns sep [] = Inr []"
| "join ns sep (x # xs) =
     (case element_string ns x of
        Inl e \<Rightarrow> Inl e
      | Inr s \<Rightarrow>
          (if xs = [] then Inr s
           else (case join ns sep xs of Inl e \<Rightarrow> Inl e | Inr t \<Rightarrow> Inr (s @ sep @ t))))"

text \<open>
  \<open>body.path\<close>: reading a property of \<open>null\<close> throws; an object yields the
  property or \<open>undefined\<close> (here \<open>None\<close>); a primitive or an array has no
  property \<open>path\<close>.
\<close>

fun get_path :: "'n json \<Rightarrow> 'n thrown + 'n json option" where
  "get_path JNull = Inl (type_error ''Cannot read properties of null (reading 'path')'')"
| "get_path (JObj kvs) = Inr (map_of kvs ''path'')"
| "get_path v = Inr None"

text \<open>
  \<open>body.path.join('')\<close>: only an array has a callable \<open>join\<close>.
\<close>

fun call_join :: "('n \<Rightarrow> string) \<Rightarrow> 'n json option \<Rightarrow> 'n thrown + string" where
  "call_join ns None = Inl (type_error ''Cannot read properties of undefined (reading 'join')'')"
| "call_join ns (Some JNull) = Inl (type_error ''Cannot read properties of null (reading 'join')'')"
| "call_join ns (Some (JArr xs)) = join ns [] xs"
| "call_join ns (Some v) = Inl (type_error ''body.path.join is not a function'')"

text \<open>
  \<open>sample.path = ...\<close>, where \<open>sample\<close> is the body itself. The assignment is
  reached only when the body is an object.
\<close>

fun assign_path :: "string \<Rightarrow> 'n json \<Rightarrow> 'n json" where
  "assign_path s (JObj kvs) = JObj (AList.update ''path'' (JStr s) kvs)"
| "assign_path s v = v"

text \<open>
  The three answers of the handler: the status and the JSON body.
\<close>

record response =
  status :: nat
  json_body :: "(string \<times> string) list"

definition ok_response :: response where
  "ok_response = \<lparr> status = 200, json_body = [(''result'', ''ok'')] \<rparr>"

definition database_error :: response where
  "database_error =
     \<lparr> status = 503,
       json_body = [(''error'', ''Database temporarily unavailable''), (''code'', ''DATABASE_ERROR'')] \<rparr>"

definition internal_error :: response where
  "internal_error =
     \<lparr> status = 500,
       json_body = [(''error'', ''Error while inserting''), (''code'', ''INTERNAL_ERROR'')] \<rparr>"

text \<open>
  The \<open>try\<close> block. \<open>req_json\<close> is the outcome of \<open>await req.json()\<close> and
  \<open>putSample v\<close> the outcome of the insert of \<open>v\<close> (\<open>None\<close> when it
  resolves). The result is the value thrown, if any, and the list of the calls of
  \<open>putSample\<close> that were made.
\<close>

definition try_block ::
  "('n \<Rightarrow> string) \<Rightarrow> ('n json \<Rightarrow> 'n thrown option) \<Rightarrow> 'n thrown + 'n json
     \<Rightarrow> ('n thrown + unit) \<times> 'n json list" where
  "try_block ns putSample req_json =
     (case req_json of
        Inl e \<Rightarrow> (Inl e, [])
      | Inr body \<Rightarrow>
          (case get_path body of
             Inl e \<Rightarrow> (Inl e, [])
           | Inr p \<Rightarrow>
               (case call_join ns p of
                  Inl e \<Rightarrow> (Inl e, [])
                | Inr s \<Rightarrow>
                    (let sample = assign_path s body
                     in (case putSample sample of
                           Some e \<Rightarrow> (Inl e, [sample])
                         | None \<Rightarrow> (Inr (), [sample]))))))"

text \<open>
  \<open>error.message.includes('ClickHouse')\<close> for an \<open>Error\<close> whose message has no
  methods of its own. A string has \<open>String.prototype.includes\<close> and an array
  \<open>Array.prototype.includes\<close>, which looks for an element equal to the argument;
  \<open>undefined\<close> and \<open>null\<close> have no properties; a number, a boolean and a plain
  object have no \<open>includes\<close>, and calling it throws.
\<close>

fun message_includes :: "'n json option \<Rightarrow> 'n thrown + bool" where
  "message_includes None =
     Inl (type_error ''Cannot read properties of undefined (reading 'includes')'')"
| "message_includes (Some JNull) =
     Inl (type_error ''Cannot read properties of null (reading 'includes')'')"
| "message_includes (Some (JStr s)) = Inr (str_includes s ''ClickHouse'')"
| "message_includes (Some (JArr xs)) = Inr (JStr ''ClickHouse'' \<in> set xs)"
| "message_includes (Some v) = Inl (type_error ''error.message.includes is not a function'')"

text \<open>
  The \<open>catch\<close> block: \<open>error instanceof Error && error.message.includes('ClickHouse')\<close>
  chooses between the two error responses. Nothing catches what the condition itself
  throws: then the handler returns no response and the value thrown leaves it.
\<close>

fun catch_block :: "'n thrown \<Rightarrow> 'n thrown + response" where
  "catch_block NotAnError = Inr internal_error"
| "catch_block (HostError r) =
     (case r of
        Inl e \<Rightarrow> Inl e
      | Inr b \<Rightarrow> Inr (if b then database_error else internal_error))"
| "catch_block (JsError m) =
     (case message_includes m of
        Inl e \<Rightarrow> Inl e
      | Inr b \<Rightarrow> Inr (if b then database_error else internal_error))"

text \<open>
  The handler: the response it returns or the value that leaves it, and the calls
  of \<open>putSample\<close> it made.
\<close>

definition POST ::
  "('n \<Rightarrow> string) \<Rightarrow> ('n json \<Rightarrow> 'n thrown option) \<Rightarrow> 'n thrown + 'n json
     \<Rightarrow> ('n thrown + response) \<times> 'n json list" where
  "POST ns putSample req_json =
     (case try_block ns putSample req_json of
        (Inr u, calls) \<Rightarrow> (Inr ok_response, calls)
      | (Inl e, calls) \<Rightarrow> (catch_block e, calls))"

text \<open>
  The array that \<open>path\<close> holds, if the body is an object whose \<open>path\<close> is an
  array.
\<close>

fun path_array :: "'n json \<Rightarrow> 'n json list option" where
  "path_array (JObj kvs) = (case map_of kvs ''path'' of Some (JArr xs) \<Rightarrow> Some xs | _ \<Rightarrow> None)"
| "path_array v = None"

text \<open>
  The decimal numeral of an integer, which is how JavaScript prints a number that
  is an integer of fewer than 22 digits; it prints the numbers of the examples.
\<close>

definition digit :: "nat \<Rightarrow> char" where
  "digit n = ''0123456789'' ! (n mod 10)"

fun decimal :: "nat \<Rightarrow> string" where
  "decimal n = (if n < 10 then [digit n] else decimal (n div 10) @ [digit n])"

declare decimal.simps [simp del]

definition print_int :: "int \<Rightarrow> string" where
  "print_int i = (if i < 0 then CHR ''-'' # decimal (nat (- i)) else decimal (nat i))"

section \<open>Components described only by the specification\<close>

subsection \<open>Neighbor Graph Deriver\<close>

text \<open>
  Modelled from the spec: a NeighborEdge, with its \<open>connection_count\<close> and \<open>last_connection\<close>. The sources query a view \<open>node_neighbor_relationships\<close> with these columns; its definition is not among them.
\<close>

record neighbor_edge =
  connection_count :: nat
  last_connection :: datetime64

text \<open>
  Modelled from the spec: the edge index, keyed by the pair of identities.
\<close>

type_synonym edge_index = "string \<times> string \<rightharpoonup> neighbor_edge"

text \<open>
  Modelled from the spec: edges are undirected for storage, so the key of the pair (A, B) is the same as that of (B, A).
\<close>

definition edge_key :: "string \<Rightarrow> string \<Rightarrow> string \<times> string" where
  "edge_key a b = (min a b, max a b)"

text \<open>
  Modelled from the spec: the hearing node H of an advert is the gateway's own identity, the column \<open>origin_pubkey\<close> (Hearing node pubkey), in the hexadecimal form of \<open>public_key\<close>.
\<close>

definition heard_by :: "'f advert \<Rightarrow> string" where
  "heard_by r = hex (origin_pubkey r)"

text \<open>
  Modelled from the spec: upsert of an edge: increment \<open>connection_count\<close>, set \<open>last_connection\<close> to the ingest time.
\<close>

definition upsert_edge :: "edge_index \<Rightarrow> string \<times> string \<Rightarrow> datetime64 \<Rightarrow> edge_index" where
  "upsert_edge edges k t =
     edges(k \<mapsto> \<lparr> connection_count = (case edges k of None \<Rightarrow> 0 | Some e \<Rightarrow> connection_count e) + 1,
                   last_connection = t \<rparr>)"

text \<open>
  Modelled from the spec: the Neighbor Graph Deriver on one accepted advert. A zero-hop advert from O heard by H upserts the edge (O, H); an advert with a hop path produces no edge. Zero-hop is \<open>path_len = 0\<close>, as in the neighbour query.
\<close>

definition derive_edge :: "edge_index \<Rightarrow> 'f advert \<Rightarrow> edge_index" where
  "derive_edge edges r =
     (if path_len r = 0 then upsert_edge edges (edge_key (public_key r) (heard_by r)) (ingest_timestamp r)
      else edges)"

text \<open>
  Modelled from the spec: the edge index after a sequence of accepted adverts.
\<close>

definition derive_edges :: "'f advert list \<Rightarrow> edge_index" where
  "derive_edges rows = fold (\<lambda>r edges. derive_edge edges r) rows Map.empty"

text \<open>
  Modelled from the spec: the \<open>connection_count\<close> of an edge, 0 for an edge that does not exist.
\<close>

definition count_of :: "edge_index \<Rightarrow> string \<times> string \<Rightarrow> nat" where
  "count_of edges k = (case edges k of None \<Rightarrow> 0 | Some e \<Rightarrow> connection_count e)"

subsection \<open>Deduplicator and ingest\<close>

text \<open>
  Modelled from the spec: the variant discriminant of a TelemetryRecord.
\<close>

datatype variant = Packet | Advert | ChannelMessage

text \<open>
  Modelled from the spec: an inbound record after normalisation, with the fields the fingerprint is defined on, the ingest time and the broker.
\<close>

record inbound =
  in_variant :: variant
  in_origin :: string
  in_mesh_time :: datetime64
  in_payload :: string
  in_ingest_time :: datetime64
  in_broker :: string

text \<open>
  Modelled from the spec: the fingerprint, a digest over the variant discriminant, the origin identity, the mesh time and the payload bytes; ingest time and broker are left out. The sources store a \<open>packet_hash\<close> column and do not compute it; the digest function is a parameter.
\<close>

definition fingerprint :: "(variant \<times> string \<times> datetime64 \<times> string \<Rightarrow> 'h) \<Rightarrow> inbound \<Rightarrow> 'h" where
  "fingerprint digest r = digest (in_variant r, in_origin r, in_mesh_time r, in_payload r)"

text \<open>
  Modelled from the spec: the two outcomes of \<open>check_and_register\<close>.
\<close>

datatype dedup_result = Accept | Duplicate_fp

text \<open>
  Modelled from the spec: \<open>check_and_register(fingerprint) -> Accept | Duplicate\<close> on the set of recent fingerprints.
\<close>

definition check_and_register :: "'h \<Rightarrow> 'h set \<Rightarrow> dedup_result \<times> 'h set" where
  "check_and_register fp seen = (if fp \<in> seen then (Duplicate_fp, seen) else (Accept, insert fp seen))"

text \<open>
  Modelled from the spec: the outcomes of \<open>ingest\<close>. \<open>Rejected\<close> is the answer to a record that fails normalisation; the records below are normalised ones.
\<close>

datatype ingest_result = Accepted | Duplicate | Rejected string

text \<open>
  Modelled from the spec: the store: the fingerprint set, the Append Log, and the records handed to the Materializer, in order.
\<close>

record 'h store =
  seen :: "'h set"
  append_log :: "inbound list"
  materializer_updates :: "inbound list"

text \<open>
  Modelled from the spec: \<open>ingest\<close>: Deduplicator, then Append Log, then (for an Advert) the Materializer. A duplicate is dropped at the boundary.
\<close>

definition ingest ::
  "(variant \<times> string \<times> datetime64 \<times> string \<Rightarrow> 'h) \<Rightarrow> 'h store \<Rightarrow> inbound \<Rightarrow> ingest_result \<times> 'h store" where
  "ingest digest st r =
     (case check_and_register (fingerprint digest r) (seen st) of
        (Duplicate_fp, s) \<Rightarrow> (Duplicate, st)
      | (Accept, s) \<Rightarrow>
          (Accepted,
           st\<lparr> seen := s, append_log := append_log st @ [r],
               materializer_updates :=
                 (if in_variant r = Advert then materializer_updates st @ [r] else materializer_updates st) \<rparr>))"

text \<open>
  Modelled from the spec: a sequence of \<open>ingest\<close> calls, with the outcome of each.
\<close>

fun ingest_all ::
  "(variant \<times> string \<times> datetime64 \<times> string \<Rightarrow> 'h) \<Rightarrow> 'h store \<Rightarrow> inbound list \<Rightarrow> ingest_result list \<times> 'h store" where
  "ingest_all digest st [] = ([], st)"
| "ingest_all digest st (r # rs) =
     (case ingest digest st r of
        (res, st') \<Rightarrow> (case ingest_all digest st' rs of (ress, st'') \<Rightarrow> (res # ress, st'')))"

text \<open>
  Modelled from the spec: two records identical in variant discriminant, origin identity, mesh time and payload bytes.
\<close>

definition same_transmission :: "inbound \<Rightarrow> inbound \<Rightarrow> bool" where
  "same_transmission a b =
     (in_variant a = in_variant b \<and> in_origin a = in_origin b
      \<and> in_mesh_time a = in_mesh_time b \<and> in_payload a = in_payload b)"

section \<open>Example rows and requests\<close>

text \<open>Concrete adverts for the worked examples; the columns that play no part in
  the view are the same in all of them.\<close>

definition example_advert ::
  "datetime64 \<Rightarrow> string \<Rightarrow> string \<Rightarrow> real option \<Rightarrow> real option \<Rightarrow> string \<Rightarrow> real advert" where
  "example_advert t k name lat lon h =
     \<lparr> ingest_timestamp = t, mesh_timestamp = t, adv_timestamp = t, public_key = k,
       node_name = name, latitude = lat, longitude = lon, altitude = None,
       has_location = (if lat = None then 0 else 1), is_repeater = 0, is_chat_node = 1,
       is_room_server = 0, has_name = 1, broker = ''mqtt.meshdev.wapnet.net'',
       topic = ''msh/US/SEA'', path = [], path_len = 0, origin_pubkey = ''GW'',
       origin = ''gw'', packet_hash = h \<rparr>"

definition first_advert :: "real advert" where
  "first_advert = example_advert 1000 ''N1'' ''Alice'' (Some (476 / 10)) (Some (- 1223 / 10)) ''h1''"

definition second_advert :: "real advert" where
  "second_advert = example_advert 2000 ''N1'' ''Alice'' (Some (477 / 10)) (Some (- 1221 / 10)) ''h2''"

definition scenario_adverts :: "real advert list" where
  "scenario_adverts = [first_advert, second_advert]"

definition location_lost_adverts :: "real advert list" where
  "location_lost_adverts =
     [example_advert 1000 ''N1'' ''Alice'' (Some (476 / 10)) (Some (- 1223 / 10)) ''h1'',
      example_advert 2000 ''N1'' ''Alice'' None None ''h2'']"


definition out_of_order_adverts :: "real advert list" where
  "out_of_order_adverts =
     [example_advert 1000 ''B'' ''Bob'' None None ''h1'',
      example_advert 2000 ''A'' ''Alice'' None None ''h2'']"

text \<open>A packet received at the time \<open>t\<close>, and the predicate of a scan that asks
  for every row.\<close>

definition example_packet :: "datetime64 \<Rightarrow> packet" where
  "example_packet t =
     \<lparr> pkt_ingest_timestamp = t, pkt_mesh_timestamp = t, pkt_broker = ''mqtt.meshdev.wapnet.net'',
       pkt_topic = ''msh/US/SEA'', pkt_packet = [], pkt_payload = [], pkt_path_len = 0,
       pkt_path = [], pkt_route_type = 1, pkt_payload_type = 4, pkt_payload_version = 0,
       pkt_header = [], pkt_origin_pubkey = ''GW'' \<rparr>"

definition every_row :: "'r \<Rightarrow> bool" where
  "every_row r = True"


definition mixed_path_sample :: "int json" where
  "mixed_path_sample =
     JObj [(''path'', JArr [JNum 1, JBool True, JStr ''a'', JNull,
                           JArr [JNum 20, JNull, JNum (- 3)], JObj []]),
           (''lat'', JNum 47)]"

definition unprintable_path_sample :: "int json" where
  "unprintable_path_sample =
     JObj [(''path'', JArr [JStr ''a1'', JObj [(''toString'', JNull)]])]"

definition insert_resolves :: "int json \<Rightarrow> int thrown option" where
  "insert_resolves v = None"


text \<open>
  Times for the retention examples: \<open>retention_now\<close> is 2025-12-22 (day 20444
  after the epoch) and the time to live is 90 days, so \<open>now - ttl\<close> is 2025-09-23.
\<close>

definition day_ms :: int where
  "day_ms = 86400000"

definition retention_now :: datetime64 where
  "retention_now = 20444 * day_ms"

definition retention_ttl :: datetime64 where
  "retention_ttl = 90 * day_ms"

text \<open>
  An advert of N2 that is 100 days old and one of N1 that is 85 days old: they are of
  2025-09-13 and 2025-09-28, so both lie in the partition 202509.
\<close>

definition same_month_adverts :: "real advert list" where
  "same_month_adverts =
     [example_advert (retention_now - 100 * day_ms) ''N2'' ''Carol'' None None ''h3'',
      example_advert (retention_now - 85 * day_ms) ''N1'' ''Alice'' None None ''h4'']"

text \<open>
  A zero-hop advert of node 4F heard by the gateway whose key is the bytes GW (4757
  in hexadecimal), and a relayed advert of the same node.
\<close>

definition zero_hop_advert :: "real advert" where
  "zero_hop_advert = example_advert 1000 ''4F'' ''Olga'' None None ''h1''"

definition relayed_advert :: "real advert" where
  "relayed_advert = (example_advert 2000 ''4F'' ''Olga'' None None ''h2'')\<lparr>path := ''A1'', path_len := 1\<rparr>"

text \<open>
  Two copies of one transmission, received through two brokers three milliseconds
  apart, and a store that has seen nothing. The digest of the example is the
  identity function.
\<close>

definition identity_digest :: "variant \<times> string \<times> datetime64 \<times> string \<Rightarrow> variant \<times> string \<times> datetime64 \<times> string" where
  "identity_digest x = x"

definition first_copy :: inbound where
  "first_copy =
     \<lparr> in_variant = Advert, in_origin = ''N1'', in_mesh_time = 500, in_payload = ''Alice'',
       in_ingest_time = 1000, in_broker = ''mqtt.meshdev.wapnet.net'' \<rparr>"

definition second_copy :: inbound where
  "second_copy =
     \<lparr> in_variant = Advert, in_origin = ''N1'', in_mesh_time = 500, in_payload = ''Alice'',
       in_ingest_time = 1003, in_broker = ''mqtt.meshtastic.org'' \<rparr>"

definition empty_store :: "'h store" where
  "empty_store = \<lparr> seen = {}, append_log = [], materializer_updates = [] \<rparr>"

section \<open>Properties of the aggregate functions\<close>

lemma select_node_eq:
  "select_node rows k =
     (if k \<in> public_key ` set rows then Some (latest_of k (group_by_key k rows)) else None)"
proof -
  have "find (\<lambda>s. latest_public_key s = k) (map (\<lambda>k. latest_of k (group_by_key k rows)) ks)
        = (if k \<in> set ks then Some (latest_of k (group_by_key k rows)) else None)" for ks
    by (induction ks) (auto simp: latest_of_def)
  from this [of "remdups (map public_key rows)"] show ?thesis
    by (simp add: select_node_def adverts_latest_select_def)
qed

lemma argMax_add_fold_gen:
  "fold (\<lambda>r st. argMax_add st (arg r) (val r)) rows (Some (b, m)) = Some (a, k) \<Longrightarrow>
     ((a, k) = (b, m) \<or> (\<exists>r\<in>set rows. a = arg r \<and> k = val r)) \<and> m \<le> k \<and> (\<forall>x\<in>set rows. val x \<le> k)"
proof (induction rows arbitrary: b m)
  case Nil
  then show ?case by simp
next
  case (Cons r rows)
  show ?case
  proof (cases "m < val r")
    case True
    with Cons.prems have "fold (\<lambda>r st. argMax_add st (arg r) (val r)) rows (Some (arg r, val r)) = Some (a, k)"
      by (simp add: argMax_add_def)
    from Cons.IH [OF this] True show ?thesis by auto
  next
    case False
    with Cons.prems have "fold (\<lambda>r st. argMax_add st (arg r) (val r)) rows (Some (b, m)) = Some (a, k)"
      by (simp add: argMax_add_def)
    from Cons.IH [OF this] False show ?thesis by auto
  qed
qed

lemma argMax_add_fold_Some:
  "\<exists>a k. fold (\<lambda>r st. argMax_add st (arg r) (val r)) rows (Some (b, m)) = Some (a, k)"
  by (induction rows arbitrary: b m) (auto simp: argMax_add_def)

lemma argMax_state_Nil [simp]: "argMax_state arg val [] = None"
  by (simp add: argMax_state_def)

lemma argMax_state_None: "argMax_state arg val rows = None \<longleftrightarrow> rows = []"
proof (cases rows)
  case Nil then show ?thesis by simp
next
  case (Cons r rs)
  then show ?thesis
    using argMax_add_fold_Some [of arg val rs "arg r" "val r"]
    by (auto simp: argMax_state_def argMax_add_def)
qed

lemma argMax_state_Some:
  assumes "argMax_state arg val rows = Some (a, k)"
  shows "\<exists>r\<in>set rows. a = arg r \<and> k = val r \<and> (\<forall>x\<in>set rows. val x \<le> val r)"
proof (cases rows)
  case Nil with assms show ?thesis by simp
next
  case (Cons r rs)
  with assms have "fold (\<lambda>r st. argMax_add st (arg r) (val r)) rs (Some (arg r, val r)) = Some (a, k)"
    by (simp add: argMax_state_def argMax_add_def)
  from argMax_add_fold_gen [OF this] Cons show ?thesis by auto
qed

lemma argMax_state_snoc:
  "argMax_state arg val (rows @ [r]) = argMax_add (argMax_state arg val rows) (arg r) (val r)"
  by (simp add: argMax_state_def)


lemma fold_min_Min:
  "fold (\<lambda>x m. min m (val x)) rs (m::'k::linorder) = Min (insert m (val ` set rs))"
proof (induction rs arbitrary: m)
  case Nil show ?case by simp
next
  case (Cons x rs)
  have "Min (insert (min m (val x)) (val ` set rs)) = Min (insert m (insert (val x) (val ` set rs)))"
    by (cases "set rs = {}") (simp_all add: min.assoc)
  then show ?case by (simp add: Cons.IH)
qed

lemma fold_max_Max:
  "fold (\<lambda>x m. max m (val x)) rs (m::'k::linorder) = Max (insert m (val ` set rs))"
proof (induction rs arbitrary: m)
  case Nil show ?case by simp
next
  case (Cons x rs)
  have "Max (insert (max m (val x)) (val ` set rs)) = Max (insert m (insert (val x) (val ` set rs)))"
    by (cases "set rs = {}") (simp_all add: max.assoc)
  then show ?case by (simp add: Cons.IH)
qed

lemma min_agg_Min: "rows \<noteq> [] \<Longrightarrow> min_agg d val rows = Min (val ` set rows)"
  by (cases rows) (simp_all add: min_agg_def fold_min_Min)

lemma max_agg_Max: "rows \<noteq> [] \<Longrightarrow> max_agg d val rows = Max (val ` set rows)"
  by (cases rows) (simp_all add: max_agg_def fold_max_Max)

lemma argMax_add_row:
  "argMax_add (map_option (\<lambda>(r, k). (arg r, k)) st) (arg r) (val r)
   = map_option (\<lambda>(r, k). (arg r, k)) (argMax_add st r (val r))"
  by (cases st) (auto simp: argMax_add_def)

lemma argMax_state_row:
  "argMax_state arg val rows = map_option (\<lambda>(r, k). (arg r, k)) (argMax_state (\<lambda>r. r) val rows)"
proof -
  have "fold (\<lambda>r st. argMax_add st (arg r) (val r)) rows (map_option (\<lambda>(r, k). (arg r, k)) st)
        = map_option (\<lambda>(r, k). (arg r, k)) (fold (\<lambda>r st. argMax_add st r (val r)) rows st)" for st
  proof (induction rows arbitrary: st)
    case Nil show ?case by simp
  next
    case (Cons r rows)
    show ?case by (simp only: fold_simps argMax_add_row Cons.IH)
  qed
  from this [of None] show ?thesis by (simp add: argMax_state_def)
qed

lemma argMax_best_row:
  assumes "g \<noteq> []"
  shows "\<exists>r\<in>set g. (\<forall>x\<in>set g. val x \<le> val r) \<and> argMax_state (\<lambda>r. r) val g = Some (r, val r)"
proof -
  obtain p where p: "argMax_state (\<lambda>r. r) val g = Some p"
    using assms argMax_state_None [of "\<lambda>r. r" val g] by (cases "argMax_state (\<lambda>r. r) val g") auto
  obtain r k where rk: "p = (r, k)" by (cases p)
  from p rk show ?thesis
    using argMax_state_Some [of "\<lambda>r. r" val g r k] by auto
qed

lemma argMax_of_best:
  "argMax_state (\<lambda>r. r) val g = Some (r, k) \<Longrightarrow> argMax d arg val g = arg r"
  by (simp add: argMax_def argMax_state_row [of arg val g])

lemma non_null_simps [simp]:
  "non_null arg [] = []"
  "non_null arg (r # rows) = (case arg r of None \<Rightarrow> non_null arg rows | Some a \<Rightarrow> (r, a) # non_null arg rows)"
  "non_null arg (xs @ ys) = non_null arg xs @ non_null arg ys"
  by (auto simp: non_null_def map_filter_def split: option.splits)

lemma set_non_null: "set (non_null arg rows) = {(r, a). r \<in> set rows \<and> arg r = Some a}"
  by (induction rows) (auto split: option.splits)

lemma non_null_Nil: "non_null arg rows = [] \<longleftrightarrow> (\<forall>r\<in>set rows. arg r = None)"
  by (induction rows) (auto split: option.splits)

lemma argMax_nullable_None:
  "argMax_nullable arg val rows = None \<longleftrightarrow> (\<forall>r\<in>set rows. arg r = None)"
  by (simp add: argMax_nullable_def argMax_state_None non_null_Nil)

lemma argMax_nullable_Some:
  assumes "argMax_nullable arg val rows = Some v"
  shows "\<exists>r\<in>set rows. arg r = Some v \<and> (\<forall>x\<in>set rows. arg x \<noteq> None \<longrightarrow> val x \<le> val r)"
proof -
  from assms obtain k where "argMax_state snd (\<lambda>p. val (fst p)) (non_null arg rows) = Some (v, k)"
    by (auto simp: argMax_nullable_def)
  from argMax_state_Some [OF this] obtain p where
    p: "p \<in> set (non_null arg rows)" "v = snd p" "\<forall>x\<in>set (non_null arg rows). val (fst x) \<le> val (fst p)"
    by auto
  from p(1,2) have "fst p \<in> set rows" "arg (fst p) = Some v" by (auto simp: set_non_null)
  moreover have "val x \<le> val (fst p)" if "x \<in> set rows" "arg x \<noteq> None" for x
  proof -
    from that obtain a where "arg x = Some a" by auto
    with that have "(x, a) \<in> set (non_null arg rows)" by (simp add: set_non_null)
    with p(3) show ?thesis by force
  qed
  ultimately show ?thesis by blast
qed

lemma group_by_key_append [simp]:
  "group_by_key k (xs @ ys) = group_by_key k xs @ group_by_key k ys"
  by (simp add: group_by_key_def)

lemma group_by_key_Nil: "group_by_key k rows = [] \<longleftrightarrow> k \<notin> public_key ` set rows"
  by (auto simp: group_by_key_def filter_empty_conv)

lemma set_group_by_key: "set (group_by_key k rows) = {r \<in> set rows. public_key r = k}"
  by (auto simp: group_by_key_def)

lemma select_node_group:
  "select_node rows k = (if group_by_key k rows = [] then None else Some (latest_of k (group_by_key k rows)))"
  by (simp add: select_node_eq group_by_key_Nil)

lemma argMax_nullable_latest: "latest_non_null arg val g (argMax_nullable arg val g)"
proof (cases "argMax_nullable arg val g")
  case None
  then have "\<forall>r\<in>set g. arg r = None" by (simp add: argMax_nullable_None)
  with None show ?thesis by (simp add: latest_non_null_def)
next
  case (Some v)
  from argMax_nullable_Some [OF this] Some show ?thesis by (simp add: latest_non_null_def)
qed

lemma Max_best: "r \<in> set g \<Longrightarrow> \<forall>x\<in>set g. val x \<le> val r \<Longrightarrow> Max (val ` set g) = (val r :: 'k::linorder)"
  by (intro Max_eqI) auto

lemma latest_of_argMax_row:
  assumes "g \<noteq> []"
  shows "\<exists>r\<in>set g. ingest_timestamp r = last_seen (latest_of k g)
           \<and> latest_node_name (latest_of k g) = node_name r
           \<and> latest_has_location (latest_of k g) = has_location r
           \<and> latest_is_repeater (latest_of k g) = is_repeater r
           \<and> latest_is_chat_node (latest_of k g) = is_chat_node r
           \<and> latest_is_room_server (latest_of k g) = is_room_server r
           \<and> latest_has_name (latest_of k g) = has_name r
           \<and> latest_broker (latest_of k g) = broker r
           \<and> latest_topic (latest_of k g) = topic r"
proof -
  from argMax_best_row [OF assms, of ingest_timestamp] obtain r where
    r: "r \<in> set g" "\<forall>x\<in>set g. ingest_timestamp x \<le> ingest_timestamp r"
    and b: "argMax_state (\<lambda>r. r) ingest_timestamp g = Some (r, ingest_timestamp r)"
    by blast
  note a = argMax_of_best [OF b]
  have l: "last_seen (latest_of k g) = ingest_timestamp r"
    using assms Max_best [OF r] by (simp add: latest_of_def max_agg_Max)
  show ?thesis
  proof (rule bexI [of _ r])
    show "r \<in> set g" by (rule r(1))
    show "ingest_timestamp r = last_seen (latest_of k g)
           \<and> latest_node_name (latest_of k g) = node_name r
           \<and> latest_has_location (latest_of k g) = has_location r
           \<and> latest_is_repeater (latest_of k g) = is_repeater r
           \<and> latest_is_chat_node (latest_of k g) = is_chat_node r
           \<and> latest_is_room_server (latest_of k g) = is_room_server r
           \<and> latest_has_name (latest_of k g) = has_name r
           \<and> latest_broker (latest_of k g) = broker r
           \<and> latest_topic (latest_of k g) = topic r"
      unfolding l by (simp add: latest_of_def a)
  qed
qed

lemma advert_count_snoc:
  "public_key r = k \<Longrightarrow>
   map_option advert_count (select_node (rows @ [r]) k) = Some (length (group_by_key k rows) + 1)"
  by (simp add: select_node_group latest_of_def) (simp add: group_by_key_def)


subsection \<open>The same row twice\<close>








subsection \<open>Rows in another order\<close>











subsection \<open>Evaluating the examples\<close>

lemmas view_defs = select_node_def adverts_latest_select_def group_by_key_def latest_of_def
  argMax_def argMax_state_def argMax_add_def argMax_nullable_def non_null_def min_agg_def
  max_agg_def example_advert_def first_advert_def second_advert_def


lemmas merge_defs = spec_materialize_def spec_merge_def spec_node_state_of_def spec_replace_fields_def
  group_by_key_def example_advert_def first_advert_def second_advert_def


section \<open>Properties of the database\<close>

lemma filter_key_remdups: "filter (\<lambda>x. x = k) (remdups ks) = (if k \<in> set ks then [k] else [])"
proof (induction ks)
  case Nil
  show ?case by simp
next
  case (Cons a ks)
  then show ?case by (cases "a = k") auto
qed

lemma rows_of_block:
  "filter (\<lambda>s. latest_public_key s = k) (adverts_latest_select b)
     = (case select_node b k of None \<Rightarrow> [] | Some x \<Rightarrow> [x])"
proof -
  have "filter (\<lambda>s. latest_public_key s = k) (map (\<lambda>k. latest_of k (group_by_key k b)) ks)
        = map (\<lambda>k. latest_of k (group_by_key k b)) (filter (\<lambda>x. x = k) ks)" for ks
    by (induction ks) (auto simp: latest_of_def)
  then show ?thesis
    by (simp add: adverts_latest_select_def filter_key_remdups select_node_eq)
qed

lemma select_latest_insert:
  "select_latest (insert_adverts b db) k
     = select_latest db k @ (case select_node b k of None \<Rightarrow> [] | Some x \<Rightarrow> [x])"
  by (simp add: select_latest_def insert_adverts_def rows_of_block)

lemma get_node_insert:
  "get_node ver (insert_adverts b db) k
     = (case select_node b k of
          None \<Rightarrow> get_node ver db k
        | Some x \<Rightarrow> replace_step ver x (get_node ver db k))"
  by (simp add: get_node_def replacing_def select_latest_insert split: option.splits)

lemma get_node_empty: "get_node ver empty_database k = None"
  by (simp add: get_node_def replacing_def select_latest_def empty_database_def)

lemma get_node_first_insert: "get_node ver (insert_adverts b empty_database) k = select_node b k"
  by (simp add: get_node_insert get_node_empty replace_step_def split: option.splits)

lemma replace_step_cases:
  "replace_step ver x None = Some x"
  "ver y < ver x \<Longrightarrow> replace_step ver x (Some y) = Some x"
  "ver y = ver x \<Longrightarrow> replace_step ver x (Some y) = Some x"
  "ver x < ver y \<Longrightarrow> replace_step ver x (Some y) = Some y"
  by (auto simp: replace_step_def)


text \<open>
  However many blocks were inserted, the merged view holds for a node the SELECT's
  row of one of them, and a row at all exactly when some block has an advert of
  the node.
\<close>

lemma get_node_of_one_block:
  "get_node ver (fold insert_adverts blocks empty_database) k = None
     \<and> (\<forall>b\<in>set blocks. select_node b k = None)
   \<or> (\<exists>b\<in>set blocks. select_node b k \<noteq> None
          \<and> get_node ver (fold insert_adverts blocks empty_database) k = select_node b k)"
proof (induction blocks rule: rev_induct)
  case Nil
  show ?case by (simp add: get_node_empty)
next
  case (snoc b blocks)
  let ?db = "fold insert_adverts blocks empty_database"
  show ?case
  proof (cases "select_node b k")
    case None
    then have "get_node ver (fold insert_adverts (blocks @ [b]) empty_database) k = get_node ver ?db k"
      by (simp add: get_node_insert)
    with snoc None show ?thesis by auto
  next
    case (Some x)
    then have g: "get_node ver (fold insert_adverts (blocks @ [b]) empty_database) k
                = replace_step ver x (get_node ver ?db k)"
      by (simp add: get_node_insert)
    show ?thesis
    proof (cases "replace_step ver x (get_node ver ?db k) = Some x")
      case True
      with g Some show ?thesis by auto
    next
      case False
      then obtain y where y: "get_node ver ?db k = Some y"
        "replace_step ver x (get_node ver ?db k) = Some y"
        by (cases "get_node ver ?db k") (auto simp: replace_step_def split: if_splits)
      with snoc obtain b' where "b' \<in> set blocks" "select_node b' k = Some y" by auto
      with g y show ?thesis by auto
    qed
  qed
qed

lemma select_latest_apply_ttl [simp]: "select_latest (apply_ttl now ttl db) k = select_latest db k"
  by (simp add: select_latest_def apply_ttl_def)

lemma get_node_apply_ttl [simp]: "get_node ver (apply_ttl now ttl db) k = get_node ver db k"
  by (simp add: get_node_def)

lemmas db_defs = get_node_def replacing_def replace_step_def select_latest_def insert_adverts_def
  empty_database_def

section \<open>The latest-state view: claims C1, C4 and C5\<close>

text \<open>
  The row that the SELECT yields for a node with at least one advert among the rows
  it is evaluated over, which are those of one inserted block: \<open>first_seen\<close> is the
  least and \<open>last_seen\<close> the greatest ingest time of the node's adverts among them,
  \<open>advert_count\<close> is their number, and one more with a further advert of the node.
  The columns that are not Nullable (name, flags, broker, topic) are those of one
  advert with the greatest ingest time. A Nullable column (latitude, longitude,
  altitude) holds the value of the latest advert in which that column is not NULL.
\<close>

lemma select_node_contents:
  assumes "g = group_by_key k rows" and "g \<noteq> []"
  shows "\<exists>s. select_node rows k = Some s
           \<and> first_seen s = Min (ingest_timestamp ` set g)
           \<and> last_seen s = Max (ingest_timestamp ` set g)
           \<and> advert_count s = length g
           \<and> (\<forall>r. public_key r = k \<longrightarrow>
                  map_option advert_count (select_node (rows @ [r]) k) = Some (advert_count s + 1))
           \<and> (\<exists>r\<in>set g. ingest_timestamp r = last_seen s
                  \<and> latest_node_name s = node_name r
                  \<and> latest_has_location s = has_location r
                  \<and> latest_is_repeater s = is_repeater r
                  \<and> latest_is_chat_node s = is_chat_node r
                  \<and> latest_is_room_server s = is_room_server r
                  \<and> latest_has_name s = has_name r
                  \<and> latest_broker s = broker r
                  \<and> latest_topic s = topic r)
           \<and> latest_non_null latitude ingest_timestamp g (latest_latitude s)
           \<and> latest_non_null longitude ingest_timestamp g (latest_longitude s)
           \<and> latest_non_null altitude ingest_timestamp g (latest_altitude s)"
proof -
  let ?s = "latest_of k g"
  have 1: "select_node rows k = Some ?s" using assms by (simp add: select_node_group)
  have 2: "first_seen ?s = Min (ingest_timestamp ` set g)"
    using assms(2) by (simp add: latest_of_def min_agg_Min)
  have 3: "last_seen ?s = Max (ingest_timestamp ` set g)"
    using assms(2) by (simp add: latest_of_def max_agg_Max)
  have 4: "advert_count ?s = length g" by (simp add: latest_of_def)
  have 5: "\<forall>r. public_key r = k \<longrightarrow>
             map_option advert_count (select_node (rows @ [r]) k) = Some (advert_count ?s + 1)"
    using advert_count_snoc [of _ k rows] assms(1) by (simp add: latest_of_def)
  note 6 = latest_of_argMax_row [OF assms(2), of k]
  have 7: "latest_non_null latitude ingest_timestamp g (latest_latitude ?s)"
    by (simp add: latest_of_def argMax_nullable_latest)
  have 8: "latest_non_null longitude ingest_timestamp g (latest_longitude ?s)"
    by (simp add: latest_of_def argMax_nullable_latest)
  have 9: "latest_non_null altitude ingest_timestamp g (latest_altitude ?s)"
    by (simp add: latest_of_def argMax_nullable_latest)
  from 1 2 3 4 5 6 7 8 9 show ?thesis by blast
qed

text \<open>
  The scenario of the specification: two adverts of N1 at t1 = 1000 and t2 = 2000 with
  coordinates (47.6, -122.3) and (47.7, -122.1). Inserted together, they give a row
  with the second advert's coordinates, \<open>first_seen = t1\<close>, \<open>last_seen = t2\<close> and
  a count of 2. Inserted one after the other, they give two rows, of which the merge
  keeps one: with \<open>last_seen\<close> as the version it is the row of the second advert
  alone, whose \<open>first_seen\<close> is t2 and whose count is 1.
\<close>

lemma scenario_in_one_insert:
  "map_option (\<lambda>s. (latest_latitude s, latest_longitude s, first_seen s, last_seen s, advert_count s))
     (get_node ver (insert_adverts scenario_adverts empty_database) ''N1'')
   = Some (Some (477 / 10), Some (- 1221 / 10), 1000, 2000, 2)"
  by (simp add: get_node_first_insert scenario_adverts_def view_defs)

lemma scenario_in_two_inserts:
  "map_option (\<lambda>s. (latest_latitude s, latest_longitude s, first_seen s, last_seen s, advert_count s))
     (get_node last_seen (insert_adverts [second_advert] (insert_adverts [first_advert] empty_database)) ''N1'')
   = Some (Some (477 / 10), Some (- 1221 / 10), 2000, 2000, 1)"
  by (simp add: get_node_insert get_node_empty replace_step_def view_defs)

text \<open>
  Claim C5. The claim is that \<open>first_seen\<close> is the minimum and \<open>last_seen\<close> the
  maximum ingest time, that the count grows with every advert, and that the
  attribute fields hold the values of the record with the greatest ingest time.
  When the latest advert of a node carries no location (\<open>latitude\<close> and
  \<open>longitude\<close> NULL, \<open>has_location = 0\<close>), the view still shows the latitude of
  the earlier advert, beside the \<open>last_seen\<close> of the latest one; the merge rule of the
  specification holds NULL there, as the claim says. The two adverts are inserted
  together, and the version column of the view's table plays no part.
\<close>

theorem latest_latitude_not_of_greatest_record:
  "get_node ver (insert_adverts location_lost_adverts empty_database) ''N1'' \<noteq> None
   \<and> map_option last_seen (get_node ver (insert_adverts location_lost_adverts empty_database) ''N1'')
       = Some 2000
   \<and> map_option latest_has_location
        (get_node ver (insert_adverts location_lost_adverts empty_database) ''N1'') = Some 0
   \<and> map_option latest_latitude
        (get_node ver (insert_adverts location_lost_adverts empty_database) ''N1'')
       = Some (Some (476 / 10))
   \<and> map (\<lambda>r. (ingest_timestamp r, latitude r)) location_lost_adverts
        = [(1000, Some (476 / 10)), (2000, None)]
   \<and> map_option latest_latitude (spec_materialize location_lost_adverts ''N1'') = Some None"
  by (simp add: get_node_first_insert location_lost_adverts_def view_defs merge_defs)










section \<open>Stored order, scans and expiry: claims C6 and C3\<close>

lemma month_from_ge: "1 \<le> m \<Longrightarrow> m \<le> 12 \<Longrightarrow> y * 100 + m \<le> month_from y m d"
proof (induction y m d rule: month_from.induct)
  case (1 y m d)
  show ?case
  proof (cases "d < days_in_month y m")
    case True
    then show ?thesis by (simp add: month_from.simps [of y m d])
  next
    case False
    show ?thesis
    proof (cases "m = 12")
      case True
      have e: "month_from y m d = month_from (y + 1) 1 (d - days_in_month y m)"
        using False True by (subst month_from.simps) simp
      from False True 1 have "(y + 1) * 100 + 1 \<le> month_from (y + 1) 1 (d - days_in_month y m)" by simp
      with True show ?thesis unfolding e by simp
    next
      case F: False
      have e: "month_from y m d = month_from y (m + 1) (d - days_in_month y m)"
        using False F by (subst month_from.simps) simp
      from False F 1 have "y * 100 + (m + 1) \<le> month_from y (m + 1) (d - days_in_month y m)" by simp
      then show ?thesis unfolding e by simp
    qed
  qed
qed

lemma month_from_mono:
  "1 \<le> m \<Longrightarrow> m \<le> 12 \<Longrightarrow> d \<le> d' \<Longrightarrow> month_from y m d \<le> month_from y m d'"
proof (induction y m d arbitrary: d' rule: month_from.induct)
  case (1 y m d)
  show ?case
  proof (cases "d < days_in_month y m")
    case True
    then have "month_from y m d = y * 100 + m" by (simp add: month_from.simps [of y m d])
    with month_from_ge [OF "1.prems"(1,2), of y d'] show ?thesis by simp
  next
    case False
    with "1.prems" have F': "\<not> d' < days_in_month y m" by simp
    show ?thesis
    proof (cases "m = 12")
      case True
      with False "1.IH"(1) [of "d' - days_in_month y m"] "1.prems"
      have "month_from (y + 1) 1 (d - days_in_month y m) \<le> month_from (y + 1) 1 (d' - days_in_month y m)"
        by simp
      moreover have "month_from y m d = month_from (y + 1) 1 (d - days_in_month y m)"
        using False True by (subst month_from.simps) simp
      moreover have "month_from y m d' = month_from (y + 1) 1 (d' - days_in_month y m)"
        using F' True by (subst month_from.simps) simp
      ultimately show ?thesis by simp
    next
      case F: False
      with False "1.IH"(2) [of "d' - days_in_month y m"] "1.prems"
      have "month_from y (m + 1) (d - days_in_month y m) \<le> month_from y (m + 1) (d' - days_in_month y m)"
        by simp
      moreover have "month_from y m d = month_from y (m + 1) (d - days_in_month y m)"
        using False F by (subst month_from.simps) simp
      moreover have "month_from y m d' = month_from y (m + 1) (d' - days_in_month y m)"
        using F' F by (subst month_from.simps) simp
      ultimately show ?thesis by simp
    qed
  qed
qed

lemma toYYYYMM_mono: "t \<le> t' \<Longrightarrow> toYYYYMM t \<le> toYYYYMM t'"
  unfolding toYYYYMM_def by (rule month_from_mono) (simp_all add: zdiv_mono1)

lemma sorted_map_coarser:
  assumes "sorted (map k xs)" and "\<And>x y. x \<in> set xs \<Longrightarrow> y \<in> set xs \<Longrightarrow> k x \<le> k y \<Longrightarrow> f x \<le> f y"
  shows "sorted (map f xs)"
  using assms by (induction xs) auto

lemma key_order_packets:
  "packets_order_by x \<le> packets_order_by y \<Longrightarrow> pkt_ingest_timestamp x \<le> pkt_ingest_timestamp y"
  by (auto simp: packets_order_by_def less_eq_prod_def)

lemma sorted_by_packets_key:
  "sorted (map pkt_ingest_timestamp (sort_key packets_order_by rows))"
  by (rule sorted_map_coarser [where k = packets_order_by]) (simp_all add: key_order_packets)

lemma sorted_by_adverts_key:
  "sorted (map public_key (sort_key adverts_order_by rows))"
  "sorted (map ingest_timestamp (filter (\<lambda>r. public_key r = k) (sort_key adverts_order_by rows)))"
proof -
  show "sorted (map public_key (sort_key adverts_order_by rows))"
    by (rule sorted_map_coarser [where k = adverts_order_by])
       (auto simp: adverts_order_by_def less_eq_prod_def)
  show "sorted (map ingest_timestamp (filter (\<lambda>r. public_key r = k) (sort_key adverts_order_by rows)))"
  proof (rule sorted_map_coarser [where k = adverts_order_by])
    show "sorted (map adverts_order_by (filter (\<lambda>r. public_key r = k) (sort_key adverts_order_by rows)))"
      by (simp add: sorted_filter)
    show "ingest_timestamp x \<le> ingest_timestamp y"
      if "x \<in> set (filter (\<lambda>r. public_key r = k) (sort_key adverts_order_by rows))"
        and "y \<in> set (filter (\<lambda>r. public_key r = k) (sort_key adverts_order_by rows))"
        and "adverts_order_by x \<le> adverts_order_by y" for x y
      using that by (auto simp: adverts_order_by_def less_eq_prod_def)
  qed
qed

lemma part_of_insert:
  "p \<in> set (parts_of_insert ts key block) \<Longrightarrow> \<exists>rows. p = sort_key key rows"
  by (auto simp: parts_of_insert_def)

lemma packets_after_inserts:
  "meshcore_packets (fold insert_packets blocks db)
     = meshcore_packets db @ concat (map (parts_of_insert pkt_ingest_timestamp packets_order_by) blocks)"
  by (induction blocks arbitrary: db) (simp_all add: insert_packets_def)

lemma adverts_after_inserts:
  "meshcore_adverts (fold insert_adverts blocks db)
     = meshcore_adverts db @ concat (map (parts_of_insert ingest_timestamp adverts_order_by) blocks)"
  by (induction blocks arbitrary: db) (simp_all add: insert_adverts_def)

lemma packets_of_database_after:
  "meshcore_packets (database_after blocks adverts)
     = concat (map (parts_of_insert pkt_ingest_timestamp packets_order_by) blocks)"
proof -
  have "meshcore_packets (fold insert_adverts adverts db) = meshcore_packets db" for db :: "'a database"
    by (induction adverts arbitrary: db) (simp_all add: insert_adverts_def)
  then show ?thesis by (simp add: database_after_def packets_after_inserts empty_database_def)
qed

lemma adverts_of_database_after:
  "meshcore_adverts (database_after blocks adverts)
     = concat (map (parts_of_insert ingest_timestamp adverts_order_by) adverts)"
proof -
  have "meshcore_adverts (fold insert_packets blocks db) = meshcore_adverts db" for db :: "'a database"
    by (induction blocks arbitrary: db) (simp_all add: insert_packets_def)
  then show ?thesis by (simp add: database_after_def adverts_after_inserts empty_database_def)
qed

lemma mset_partitions:
  "distinct bs \<Longrightarrow>
   mset (concat (map (\<lambda>b. sort_key key (filter (\<lambda>r. f r = b) xs)) bs))
     = filter_mset (\<lambda>r. f r \<in> set bs) (mset xs)"
proof (induction bs)
  case Nil
  show ?case by simp
next
  case (Cons b bs)
  then have "mset (concat (map (\<lambda>b. sort_key key (filter (\<lambda>r. f r = b) xs)) (b # bs)))
      = filter_mset (\<lambda>r. f r = b) (mset xs) + filter_mset (\<lambda>r. f r \<in> set bs) (mset xs)"
    by simp
  also have "\<dots> = filter_mset (\<lambda>r. f r \<in> set (b # bs)) (mset xs)"
    using Cons.prems by (induction xs) auto
  finally show ?case .
qed

lemma mset_parts_of_insert: "mset (concat (parts_of_insert ts key block)) = mset block"
proof -
  have "mset (concat (parts_of_insert ts key block))
      = filter_mset (\<lambda>r. toYYYYMM (ts r) \<in> set (partition_ids ts block)) (mset block)"
    unfolding parts_of_insert_def by (rule mset_partitions) (simp add: partition_ids_def)
  also have "\<dots> = mset block"
    by (rule filter_mset_cong [where g = "\<lambda>r. True", simplified, OF refl]) (simp add: partition_ids_def)
  finally show ?thesis .
qed

lemma mset_parts_of_inserts:
  "mset (concat (concat (map (parts_of_insert ts key) blocks))) = mset (concat blocks)"
  by (induction blocks) (simp_all add: mset_parts_of_insert)

lemma concat_ttl_merge:
  "concat (ttl_merge ts now ttl parts) = filter (\<lambda>r. now < ts r + ttl) (concat parts)"
  by (induction parts) (auto simp: ttl_merge_def ttl_expired_def not_le)

lemma partition_order_is_time_order: "toYYYYMM t < toYYYYMM t' \<Longrightarrow> t < t'"
  using toYYYYMM_mono [of t' t] by (cases "t < t'") simp_all

text \<open>
  Claim C6. Every part of \<open>meshcore_packets\<close> is stored in ingest-time order,
  because the sorting key starts with \<open>ingest_timestamp\<close>, and so is a part made
  by merging parts, or by \<open>OPTIMIZE ... FINAL\<close>, which hold the rows of the parts
  they were made from. Every part of
  \<open>meshcore_adverts\<close>, whose sorting key starts with \<open>public_key\<close>, is in the
  order of the public keys, and the rows of one public key in it are in ingest-time
  order. A time-range read returns the rows that match, each as often as it was
  inserted, and a read that ends in \<open>ORDER BY ingest_timestamp\<close> returns them in
  ingest-time order. A row of an earlier partition has an earlier ingest time than
  a row of a later partition.
\<close>

theorem parts_in_sorting_key_order:
  "(\<forall>p\<in>set (meshcore_packets (database_after blocks adverts)).
       sorted (map pkt_ingest_timestamp p))
   \<and> sorted (map pkt_ingest_timestamp (merge_parts packets_order_by p q))
   \<and> mset (merge_parts packets_order_by p q) = mset p + mset q
   \<and> (\<forall>p\<in>set (optimize_final pkt_ingest_timestamp packets_order_by parts).
         sorted (map pkt_ingest_timestamp p))
   \<and> mset (concat (optimize_final pkt_ingest_timestamp packets_order_by parts)) = mset (concat parts)
   \<and> (\<forall>p\<in>set (meshcore_adverts (database_after blocks adverts)).
         sorted (map public_key p)
         \<and> sorted (map ingest_timestamp (filter (\<lambda>r. public_key r = k) p)))
   \<and> mset (scan pkt_ingest_timestamp pred lo hi
              (meshcore_packets (database_after blocks adverts)))
       = filter_mset (\<lambda>r. lo \<le> pkt_ingest_timestamp r \<and> pkt_ingest_timestamp r \<le> hi \<and> pred r)
           (mset (concat blocks))
   \<and> mset (scan ingest_timestamp apred lo hi
              (meshcore_adverts (database_after blocks adverts)))
       = filter_mset (\<lambda>r. lo \<le> ingest_timestamp r \<and> ingest_timestamp r \<le> hi \<and> apred r)
           (mset (concat adverts))
   \<and> sorted (map pkt_ingest_timestamp (order_by pkt_ingest_timestamp
        (scan pkt_ingest_timestamp pred lo hi (meshcore_packets (database_after blocks adverts)))))
   \<and> mset (order_by pkt_ingest_timestamp
        (scan pkt_ingest_timestamp pred lo hi (meshcore_packets (database_after blocks adverts))))
       = mset (scan pkt_ingest_timestamp pred lo hi (meshcore_packets (database_after blocks adverts)))
   \<and> sorted (map ingest_timestamp (order_by ingest_timestamp
        (scan ingest_timestamp apred lo hi (meshcore_adverts (database_after blocks adverts)))))
   \<and> mset (order_by ingest_timestamp
        (scan ingest_timestamp apred lo hi (meshcore_adverts (database_after blocks adverts))))
       = mset (scan ingest_timestamp apred lo hi (meshcore_adverts (database_after blocks adverts)))
   \<and> (toYYYYMM t < toYYYYMM t' \<longrightarrow> t < t')"
proof (intro conjI ballI impI)
  fix p
  assume "p \<in> set (meshcore_packets (database_after blocks adverts))"
  then obtain block where "p \<in> set (parts_of_insert pkt_ingest_timestamp packets_order_by block)"
    by (auto simp: packets_of_database_after)
  then show "sorted (map pkt_ingest_timestamp p)"
    using part_of_insert sorted_by_packets_key by blast
next
  show "sorted (map pkt_ingest_timestamp (merge_parts packets_order_by p q))"
    by (simp add: merge_parts_def sorted_by_packets_key)
next
  show "mset (merge_parts packets_order_by p q) = mset p + mset q"
    by (simp add: merge_parts_def)
next
  fix p
  assume "p \<in> set (optimize_final pkt_ingest_timestamp packets_order_by parts)"
  then show "sorted (map pkt_ingest_timestamp p)"
    unfolding optimize_final_def using part_of_insert sorted_by_packets_key by blast
next
  show "mset (concat (optimize_final pkt_ingest_timestamp packets_order_by parts)) = mset (concat parts)"
    by (simp add: optimize_final_def mset_parts_of_insert)
next
  fix p
  assume "p \<in> set (meshcore_adverts (database_after blocks adverts))"
  then obtain block where "p \<in> set (parts_of_insert ingest_timestamp adverts_order_by block)"
    by (auto simp: adverts_of_database_after)
  then obtain rows where p: "p = sort_key adverts_order_by rows"
    using part_of_insert by blast
  show "sorted (map public_key p)" unfolding p by (rule sorted_by_adverts_key)
  show "sorted (map ingest_timestamp (filter (\<lambda>r. public_key r = k) p))"
    unfolding p by (rule sorted_by_adverts_key)
next
  show "mset (scan pkt_ingest_timestamp pred lo hi
              (meshcore_packets (database_after blocks adverts)))
       = filter_mset (\<lambda>r. lo \<le> pkt_ingest_timestamp r \<and> pkt_ingest_timestamp r \<le> hi \<and> pred r)
           (mset (concat blocks))"
    by (simp add: scan_def packets_of_database_after mset_parts_of_inserts)
next
  show "mset (scan ingest_timestamp apred lo hi
              (meshcore_adverts (database_after blocks adverts)))
       = filter_mset (\<lambda>r. lo \<le> ingest_timestamp r \<and> ingest_timestamp r \<le> hi \<and> apred r)
           (mset (concat adverts))"
    by (simp add: scan_def adverts_of_database_after mset_parts_of_inserts)
next
  show "sorted (map pkt_ingest_timestamp (order_by pkt_ingest_timestamp
        (scan pkt_ingest_timestamp pred lo hi (meshcore_packets (database_after blocks adverts)))))"
    by (simp add: order_by_def)
next
  show "mset (order_by pkt_ingest_timestamp
        (scan pkt_ingest_timestamp pred lo hi (meshcore_packets (database_after blocks adverts))))
       = mset (scan pkt_ingest_timestamp pred lo hi (meshcore_packets (database_after blocks adverts)))"
    by (simp add: order_by_def)
next
  show "sorted (map ingest_timestamp (order_by ingest_timestamp
        (scan ingest_timestamp apred lo hi (meshcore_adverts (database_after blocks adverts)))))"
    by (simp add: order_by_def)
next
  show "mset (order_by ingest_timestamp
        (scan ingest_timestamp apred lo hi (meshcore_adverts (database_after blocks adverts))))
       = mset (scan ingest_timestamp apred lo hi (meshcore_adverts (database_after blocks adverts)))"
    by (simp add: order_by_def)
next
  assume "toYYYYMM t < toYYYYMM t'"
  then show "t < t'" by (rule partition_order_is_time_order)
qed

lemmas storage_defs = parts_of_insert_def partition_ids_def scan_def adverts_order_by_def
  packets_order_by_def insert_adverts_def insert_packets_def empty_database_def less_eq_prod_def
  toYYYYMM_def month_from.simps days_in_month_def

lemma example_parts:
  "meshcore_packets (database_after
      [[example_packet 2000], [example_packet (31 * 86400000), example_packet 3000, example_packet 1000]]
      [out_of_order_adverts])
   = [[example_packet 2000], [example_packet 1000, example_packet 3000], [example_packet (31 * 86400000)]]"
  "meshcore_adverts (database_after
      [[example_packet 2000], [example_packet (31 * 86400000), example_packet 3000, example_packet 1000]]
      [out_of_order_adverts])
   = [rev out_of_order_adverts]"
  by (simp_all add: packets_of_database_after adverts_of_database_after storage_defs
        example_packet_def out_of_order_adverts_def example_advert_def)

text \<open>
  Four packets in two INSERTs, and the adverts of B and A in one. The second INSERT of
  packets, with the times of 1970-02-01, 3000 and 1000, is stored as two parts: the
  part of 1970-01 with the times 1000 and 3000, and the part of 1970-02. The first of
  them, its merge with the part of the first INSERT, and the part of the two adverts
  are in the order the theorem gives them; 1970-01 lies before 1970-02.
\<close>

theorem parts_in_sorting_key_order_witness:
  "[example_packet 1000, example_packet 3000]
     \<in> set (meshcore_packets (database_after
         [[example_packet 2000], [example_packet (31 * 86400000), example_packet 3000, example_packet 1000]]
         [out_of_order_adverts]))
   \<and> sorted (map pkt_ingest_timestamp [example_packet 1000, example_packet 3000])
   \<and> sorted (map pkt_ingest_timestamp
        (merge_parts packets_order_by [example_packet 2000] [example_packet 1000, example_packet 3000]))
   \<and> rev out_of_order_adverts
       \<in> set (meshcore_adverts (database_after
         [[example_packet 2000], [example_packet (31 * 86400000), example_packet 3000, example_packet 1000]]
         [out_of_order_adverts]))
   \<and> sorted (map public_key (rev out_of_order_adverts))
   \<and> toYYYYMM 1000 < toYYYYMM (31 * 86400000) \<and> (1000 :: int) < 31 * 86400000"
proof -
  note t = parts_in_sorting_key_order [of
      "[[example_packet 2000], [example_packet (31 * 86400000), example_packet 3000, example_packet 1000]]"
      "[out_of_order_adverts]" "[example_packet 2000]" "[example_packet 1000, example_packet 3000]" "[]"
      "''A''" every_row 0 5000 every_row 1000 "31 * 86400000"]
  have a: "[example_packet 1000, example_packet 3000]
     \<in> set (meshcore_packets (database_after
         [[example_packet 2000], [example_packet (31 * 86400000), example_packet 3000, example_packet 1000]]
         [out_of_order_adverts]))"
    by (subst example_parts) simp
  from t a have b: "sorted (map pkt_ingest_timestamp [example_packet 1000, example_packet 3000])"
    by blast
  from t have c: "sorted (map pkt_ingest_timestamp
        (merge_parts packets_order_by [example_packet 2000] [example_packet 1000, example_packet 3000]))"
    by blast
  from t have d: "\<forall>p\<in>set (meshcore_adverts (database_after
         [[example_packet 2000], [example_packet (31 * 86400000), example_packet 3000, example_packet 1000]]
         [out_of_order_adverts])).
         sorted (map public_key p)"
    by blast
  have e: "rev out_of_order_adverts
       \<in> set (meshcore_adverts (database_after
         [[example_packet 2000], [example_packet (31 * 86400000), example_packet 3000, example_packet 1000]]
         [out_of_order_adverts]))"
    by (subst example_parts) simp
  from d e have h: "sorted (map public_key (rev out_of_order_adverts))" by blast
  have f: "toYYYYMM 1000 < toYYYYMM (31 * 86400000)"
    by (simp add: toYYYYMM_def month_from.simps days_in_month_def)
  from t f have g: "(1000 :: int) < 31 * 86400000" by blast
  from a b c e h f g show ?thesis by blast
qed

text \<open>
  Claim C6 as stated fails. Two adverts of January 1970 inserted together, B at the
  time 1000 and A at the time 2000, are stored in one part with the later one
  first, and a read of the part returns them so. Two packets inserted one after
  the other, the later one first, lie in two parts of one partition, and a read
  that takes the parts as they were written returns the later one first.
\<close>

theorem adverts_partition_not_in_ingest_order:
  "map (map ingest_timestamp)
     (meshcore_adverts (database_after [[example_packet 2000], [example_packet 1000]] [out_of_order_adverts]))
     = [[2000, 1000]]
   \<and> map toYYYYMM (map ingest_timestamp out_of_order_adverts) = [197001, 197001]
   \<and> map ingest_timestamp
       (scan ingest_timestamp every_row 0 5000
          (meshcore_adverts (database_after [[example_packet 2000], [example_packet 1000]] [out_of_order_adverts])))
     = [2000, 1000]
   \<and> map pkt_ingest_timestamp
       (scan pkt_ingest_timestamp every_row 0 5000
          (meshcore_packets (database_after [[example_packet 2000], [example_packet 1000]] [out_of_order_adverts])))
     = [2000, 1000]"
  by (simp add: packets_of_database_after adverts_of_database_after out_of_order_adverts_def
        storage_defs example_advert_def example_packet_def every_row_def)

lemma adverts_after_ttl:
  "concat (meshcore_adverts (apply_ttl now ttl db))
     = filter (\<lambda>r. now < ingest_timestamp r + ttl) (concat (meshcore_adverts db))"
  by (simp add: apply_ttl_def concat_ttl_merge)

lemma scan_after_ttl:
  "scan ingest_timestamp pred lo hi (meshcore_adverts (apply_ttl now ttl db))
     = filter (\<lambda>r. now < ingest_timestamp r + ttl) (scan ingest_timestamp pred lo hi (meshcore_adverts db))"
  by (simp add: scan_def adverts_after_ttl conj_commute)

text \<open>
  Claim C3. Once the TTL has been applied at the time \<open>now\<close>, the rows left in
  \<open>meshcore_adverts\<close>, and in \<open>meshcore_packets\<close> likewise, are those with
  \<open>now < ingest_timestamp + ttl\<close>: each row
  goes or stays by its own ingest time, whatever partition it is in. A scan returns
  the rows it returned before that are left, so none with an ingest time of
  \<open>now - ttl\<close> or older. The view's table is not touched: the view returns for
  every node the rows, and after a merge the row, that it returned before.
\<close>

theorem ttl_removes_expired_rows:
  "concat (meshcore_adverts (apply_ttl now ttl db))
     = filter (\<lambda>r. now < ingest_timestamp r + ttl) (concat (meshcore_adverts db))
   \<and> scan ingest_timestamp pred lo hi (meshcore_adverts (apply_ttl now ttl db))
     = filter (\<lambda>r. now < ingest_timestamp r + ttl) (scan ingest_timestamp pred lo hi (meshcore_adverts db))
   \<and> (\<forall>r\<in>set (scan ingest_timestamp pred lo hi (meshcore_adverts (apply_ttl now ttl db))).
         now - ttl < ingest_timestamp r)
   \<and> concat (meshcore_packets (apply_ttl now ttl db))
     = filter (\<lambda>r. now < pkt_ingest_timestamp r + ttl) (concat (meshcore_packets db))
   \<and> meshcore_adverts_latest (apply_ttl now ttl db) = meshcore_adverts_latest db
   \<and> select_latest (apply_ttl now ttl db) k = select_latest db k
   \<and> get_node ver (apply_ttl now ttl db) k = get_node ver db k"
proof (intro conjI ballI)
  show "concat (meshcore_packets (apply_ttl now ttl db))
     = filter (\<lambda>r. now < pkt_ingest_timestamp r + ttl) (concat (meshcore_packets db))"
    by (simp add: apply_ttl_def concat_ttl_merge)
  show "concat (meshcore_adverts (apply_ttl now ttl db))
     = filter (\<lambda>r. now < ingest_timestamp r + ttl) (concat (meshcore_adverts db))"
    by (rule adverts_after_ttl)
  show "scan ingest_timestamp pred lo hi (meshcore_adverts (apply_ttl now ttl db))
     = filter (\<lambda>r. now < ingest_timestamp r + ttl) (scan ingest_timestamp pred lo hi (meshcore_adverts db))"
    by (rule scan_after_ttl)
  show "now - ttl < ingest_timestamp r"
    if "r \<in> set (scan ingest_timestamp pred lo hi (meshcore_adverts (apply_ttl now ttl db)))" for r
    using that unfolding scan_after_ttl by simp
  show "meshcore_adverts_latest (apply_ttl now ttl db) = meshcore_adverts_latest db"
    by (simp add: apply_ttl_def)
  show "select_latest (apply_ttl now ttl db) k = select_latest db k" by simp
  show "get_node ver (apply_ttl now ttl db) k = get_node ver db k" by simp
qed

lemmas calendar_defs = toYYYYMM_def month_from.simps days_in_month_def is_leap_year_def day_ms_def
  retention_now_def retention_ttl_def

lemma example_months:
  "toYYYYMM retention_now = 202512"
  "toYYYYMM (retention_now - retention_ttl) = 202509"
  "toYYYYMM (retention_now - 100 * day_ms) = 202509"
  "toYYYYMM (retention_now - 85 * day_ms) = 202509"
  by (simp_all add: calendar_defs)

lemma same_month_stored:
  "meshcore_adverts (insert_adverts same_month_adverts empty_database)
     = [[example_advert (retention_now - 85 * day_ms) ''N1'' ''Alice'' None None ''h4'',
         example_advert (retention_now - 100 * day_ms) ''N2'' ''Carol'' None None ''h3'']]"
  by (simp add: insert_adverts_def empty_database_def parts_of_insert_def partition_ids_def
        same_month_adverts_def adverts_order_by_def less_eq_prod_def)
     (simp add: example_advert_def example_months)

lemma same_month_after_ttl:
  "concat (meshcore_adverts
     (apply_ttl retention_now retention_ttl (insert_adverts same_month_adverts empty_database)))
   = [example_advert (retention_now - 85 * day_ms) ''N1'' ''Alice'' None None ''h4'']"
  unfolding adverts_after_ttl same_month_stored
  by (simp add: example_advert_def retention_ttl_def day_ms_def)

lemma expired_part_disappears:
  "ttl_merge pkt_ingest_timestamp 5000 1000 [[example_packet 1000, example_packet 3000], [example_packet 4500]]
     = [[example_packet 4500]]"
  "ttl_merge pkt_ingest_timestamp 5000 1000 [[example_packet 4000, example_packet 4500]]
     = [[example_packet 4500]]"
  by (simp_all add: ttl_merge_def ttl_expired_def example_packet_def)

text \<open>
  The adverts of N2 and N1 from 2025-09-13 and 2025-09-28, at \<open>now\<close> = 2025-12-22
  with 90 days to live: a scan over all times returns the advert of N1 only, which
  is younger than 90 days.
\<close>

theorem ttl_removes_expired_rows_witness:
  "scan ingest_timestamp every_row 0 retention_now
     (meshcore_adverts
       (apply_ttl retention_now retention_ttl (insert_adverts same_month_adverts empty_database)))
     = [example_advert (retention_now - 85 * day_ms) ''N1'' ''Alice'' None None ''h4'']
   \<and> retention_now - retention_ttl
       < ingest_timestamp (example_advert (retention_now - 85 * day_ms) ''N1'' ''Alice'' None None ''h4'')"
proof -
  note t = ttl_removes_expired_rows [of retention_now retention_ttl
      "insert_adverts same_month_adverts empty_database" every_row 0 retention_now "''N2''" last_seen]
  have s: "scan ingest_timestamp every_row 0 retention_now
     (meshcore_adverts
       (apply_ttl retention_now retention_ttl (insert_adverts same_month_adverts empty_database)))
     = [example_advert (retention_now - 85 * day_ms) ''N1'' ''Alice'' None None ''h4'']"
    unfolding scan_def same_month_after_ttl
    by (simp add: every_row_def example_advert_def retention_now_def day_ms_def)
  from t have "\<forall>r\<in>set (scan ingest_timestamp every_row 0 retention_now
     (meshcore_adverts
       (apply_ttl retention_now retention_ttl (insert_adverts same_month_adverts empty_database)))).
         retention_now - retention_ttl < ingest_timestamp r"
    by blast
  with s show ?thesis by simp
qed

text \<open>
  Claim C3 as stated fails. The adverts of N2 (100 days old) and N1 (85 days old)
  lie in the same partition, 202509. After the TTL has been applied the table holds
  the advert of N1 and not that of N2, so the partition was deleted in part; and
  the view still returns the row of N2, whose only advert is gone, as it was.
\<close>

theorem expired_node_still_listed:
  "map toYYYYMM (map ingest_timestamp same_month_adverts) = [202509, 202509]
   \<and> map public_key (concat (meshcore_adverts (insert_adverts same_month_adverts empty_database)))
     = [''N1'', ''N2'']
   \<and> map public_key (concat (meshcore_adverts
       (apply_ttl retention_now retention_ttl (insert_adverts same_month_adverts empty_database))))
     = [''N1'']
   \<and> map_option last_seen
       (get_node last_seen
          (apply_ttl retention_now retention_ttl (insert_adverts same_month_adverts empty_database))
          ''N2'')
     = Some (retention_now - 100 * day_ms)
   \<and> map_option latest_node_name
       (get_node last_seen
          (apply_ttl retention_now retention_ttl (insert_adverts same_month_adverts empty_database))
          ''N2'')
     = Some ''Carol''"
proof -
  have a: "map toYYYYMM (map ingest_timestamp same_month_adverts) = [202509, 202509]"
    by (simp add: same_month_adverts_def example_advert_def example_months)
  have b: "map public_key (concat (meshcore_adverts (insert_adverts same_month_adverts empty_database)))
     = [''N1'', ''N2'']"
    unfolding same_month_stored by (simp add: example_advert_def)
  have c: "map public_key (concat (meshcore_adverts
       (apply_ttl retention_now retention_ttl (insert_adverts same_month_adverts empty_database))))
     = [''N1'']"
    unfolding same_month_after_ttl by (simp add: example_advert_def)
  have d: "get_node last_seen
          (apply_ttl retention_now retention_ttl (insert_adverts same_month_adverts empty_database))
          ''N2''
       = select_node same_month_adverts ''N2''"
    by (simp add: get_node_first_insert)
  have e: "map_option last_seen (select_node same_month_adverts ''N2'') = Some (retention_now - 100 * day_ms)"
    "map_option latest_node_name (select_node same_month_adverts ''N2'') = Some ''Carol''"
    by (simp_all add: same_month_adverts_def view_defs)
  from a b c e show ?thesis unfolding d by simp
qed

section \<open>The route handler: claims C9 and C10\<close>





lemma POST_of_try:
  "fst (POST ns putSample rq) =
     (case fst (try_block ns putSample rq) of Inr u \<Rightarrow> Inr ok_response | Inl e \<Rightarrow> catch_block e)"
  "snd (POST ns putSample rq) = snd (try_block ns putSample rq)"
  by (auto simp: POST_def split: prod.splits sum.splits)








lemma conversion_throws:
  "element_string ns x = Inl e \<Longrightarrow> e = type_error ''Cannot convert object to primitive value''"
  "join ns sep xs = Inl e \<Longrightarrow> e = type_error ''Cannot convert object to primitive value''"
  by (induction ns x and ns sep xs rule: element_string_join.induct)
     (auto split: if_splits sum.splits)

lemma join_elements:
  "list_all2 (\<lambda>x s. element_string ns x = Inr s) xs strs \<Longrightarrow> join ns [] xs = Inr (concat strs)"
proof (induction xs arbitrary: strs)
  case Nil
  then show ?case by simp
next
  case (Cons x xs)
  then obtain s ss where s: "strs = s # ss" "element_string ns x = Inr s"
    "list_all2 (\<lambda>x s. element_string ns x = Inr s) xs ss"
    by (auto simp: list_all2_Cons1)
  with Cons.IH have "join ns [] xs = Inr (concat ss)" by blast
  with s show ?case by (cases xs) auto
qed

lemma join_throws:
  "x \<in> set xs \<Longrightarrow> element_string ns x = Inl e \<Longrightarrow> \<exists>e'. join ns sep xs = Inl e'"
proof (induction xs)
  case Nil
  then show ?case by simp
next
  case (Cons y ys)
  show ?case
  proof (cases "element_string ns y")
    case (Inl e')
    then show ?thesis by simp
  next
    case (Inr s)
    with Cons.prems have "x \<in> set ys" by auto
    with Cons have "\<exists>e'. join ns sep ys = Inl e'" by blast
    with Inr \<open>x \<in> set ys\<close> show ?thesis by (cases ys) auto
  qed
qed

lemma rejected_messages:
  "\<not> str_includes ''Cannot read properties of null (reading 'path')'' ''ClickHouse''"
  "\<not> str_includes ''Cannot read properties of undefined (reading 'join')'' ''ClickHouse''"
  "\<not> str_includes ''Cannot read properties of null (reading 'join')'' ''ClickHouse''"
  "\<not> str_includes ''body.path.join is not a function'' ''ClickHouse''"
  "\<not> str_includes ''Cannot convert object to primitive value'' ''ClickHouse''"
  by simp_all

text \<open>
  What reading and joining \<open>path\<close> throws, by the shape of the body.
\<close>

lemma path_type_errors:
  "fst (try_block ns putSample (Inr JNull))
     = Inl (type_error ''Cannot read properties of null (reading 'path')'')"
  "map_of kvs ''path'' = None \<Longrightarrow>
   fst (try_block ns putSample (Inr (JObj kvs)))
     = Inl (type_error ''Cannot read properties of undefined (reading 'join')'')"
  "fst (try_block ns putSample (Inr (JArr xs)))
     = Inl (type_error ''Cannot read properties of undefined (reading 'join')'')"
  "map_of kvs ''path'' = Some JNull \<Longrightarrow>
   fst (try_block ns putSample (Inr (JObj kvs)))
     = Inl (type_error ''Cannot read properties of null (reading 'join')'')"
  "map_of kvs ''path'' = Some (JStr s) \<Longrightarrow>
   fst (try_block ns putSample (Inr (JObj kvs))) = Inl (type_error ''body.path.join is not a function'')"
  "map_of kvs ''path'' = Some (JObj kvs') \<Longrightarrow>
   fst (try_block ns putSample (Inr (JObj kvs))) = Inl (type_error ''body.path.join is not a function'')"
  by (simp_all add: try_block_def)

lemma POST_no_path_array:
  assumes "path_array b = None"
  shows "POST ns putSample (Inr b) = (Inr internal_error, [])"
proof -
  have "\<exists>m. (get_path b = Inl (type_error m) \<or> (\<exists>p. get_path b = Inr p \<and> call_join ns p = Inl (type_error m)))
            \<and> \<not> str_includes m ''ClickHouse''"
  proof (cases b)
    case (JObj kvs)
    show ?thesis
    proof (cases "map_of kvs ''path''")
      case None
      with JObj show ?thesis using rejected_messages(2) by auto
    next
      case (Some v)
      with JObj assms show ?thesis
        using rejected_messages(3,4) by (cases v) auto
    qed
  qed (use rejected_messages in auto)
  then obtain m where m: "\<not> str_includes m ''ClickHouse''"
    and "get_path b = Inl (type_error m) \<or> (\<exists>p. get_path b = Inr p \<and> call_join ns p = Inl (type_error m))"
    by blast
  then have "try_block ns putSample (Inr b) = (Inl (type_error m), [])"
    by (auto simp: try_block_def)
  with m show ?thesis by (simp add: POST_def type_error_def)
qed

lemma POST_path_array:
  assumes "map_of kvs ''path'' = Some (JArr xs)"
    and "list_all2 (\<lambda>x s. element_string ns x = Inr s) xs strs"
  shows "snd (POST ns putSample (Inr (JObj kvs))) = [JObj (AList.update ''path'' (JStr (concat strs)) kvs)]"
  using assms(1) join_elements [OF assms(2)]
  by (simp add: POST_of_try try_block_def Let_def split: option.splits)

lemma POST_unprintable_path:
  assumes "map_of kvs ''path'' = Some (JArr xs)" and "x \<in> set xs" and "element_string ns x = Inl e"
  shows "POST ns putSample (Inr (JObj kvs)) = (Inr internal_error, [])"
proof -
  from join_throws [OF assms(2,3)] obtain e' where "join ns [] xs = Inl e'" by blast
  moreover from this have "e' = type_error ''Cannot convert object to primitive value''"
    by (rule conversion_throws)
  ultimately have "try_block ns putSample (Inr (JObj kvs))
      = (Inl (type_error ''Cannot convert object to primitive value''), [])"
    using assms(1) by (simp add: try_block_def)
  then show ?thesis using rejected_messages(5) by (simp add: POST_def type_error_def)
qed

text \<open>
  Claim C10. When \<open>path\<close> is an array, \<open>putSample\<close> is called once, with the
  body in which \<open>path\<close> is the concatenation of the strings of the elements of the
  array, in order and with nothing between them. The string of an element is the
  one JavaScript's \<open>join\<close> takes: empty for \<open>null\<close>, the string itself, the
  printed number, \<open>true\<close> or \<open>false\<close>, a nested array joined with commas, and
  \<open>[object Object]\<close> for an object. An array with an element that has no string (an
  object with a property \<open>toString\<close>) is refused. When the body has no \<open>path\<close>
  that is an array, reading or joining it throws a \<open>TypeError\<close>, \<open>putSample\<close> is
  not called and the answer is the 500 \<open>INTERNAL_ERROR\<close> response.
\<close>

theorem POST_joins_path_or_rejects:
  "(\<forall>kvs xs strs. map_of kvs ''path'' = Some (JArr xs)
        \<and> list_all2 (\<lambda>x s. element_string ns x = Inr s) xs strs \<longrightarrow>
       snd (POST ns putSample (Inr (JObj kvs))) = [JObj (AList.update ''path'' (JStr (concat strs)) kvs)])
   \<and> (\<forall>kvs xs x e. map_of kvs ''path'' = Some (JArr xs) \<and> x \<in> set xs \<and> element_string ns x = Inl e \<longrightarrow>
       POST ns putSample (Inr (JObj kvs)) = (Inr internal_error, []))
   \<and> (\<forall>b. path_array b = None \<longrightarrow> POST ns putSample (Inr b) = (Inr internal_error, []))
   \<and> element_string ns JNull = Inr []
   \<and> (\<forall>s. element_string ns (JStr s) = Inr s)
   \<and> (\<forall>n. element_string ns (JNum n) = Inr (ns n))
   \<and> element_string ns (JBool True) = Inr ''true''
   \<and> element_string ns (JBool False) = Inr ''false''
   \<and> (\<forall>ys. element_string ns (JArr ys) = join ns '','' ys)
   \<and> (\<forall>kvs. ''toString'' \<notin> fst ` set kvs \<longrightarrow> element_string ns (JObj kvs) = Inr ''[object Object]'')
   \<and> (\<forall>kvs. ''toString'' \<in> fst ` set kvs \<longrightarrow>
         element_string ns (JObj kvs) = Inl (type_error ''Cannot convert object to primitive value''))
   \<and> (\<forall>sep. join ns sep [] = Inr [])
   \<and> (\<forall>sep x. join ns sep [x] = element_string ns x)
   \<and> (\<forall>sep x y ys s t. element_string ns x = Inr s \<and> join ns sep (y # ys) = Inr t \<longrightarrow>
         join ns sep (x # y # ys) = Inr (s @ sep @ t))
   \<and> (\<forall>sep x y ys e. element_string ns x = Inl e \<or> join ns sep (y # ys) = Inl e \<longrightarrow>
         (\<exists>e'. join ns sep (x # y # ys) = Inl e'))"
  apply (intro conjI allI impI)
  subgoal for kvs xs strs using POST_path_array [of kvs xs ns strs putSample] by blast
  subgoal for kvs xs x e using POST_unprintable_path [of kvs xs x ns e putSample] by blast
  subgoal for b using POST_no_path_array [of b ns putSample] by blast
  subgoal by simp
  subgoal by simp
  subgoal by simp
  subgoal by simp
  subgoal by simp
  subgoal by simp
  subgoal by simp
  subgoal by simp
  subgoal by simp
  subgoal for sep x by (cases "element_string ns x") simp_all
  subgoal by simp
  subgoal for sep x y ys e by (cases "element_string ns x") auto
  done

text \<open>
  A body with \<open>path = [1, true, "a", null, [20, null, -3], {}]\<close> is inserted with
  \<open>path = "1truea20,,-3[object Object]"\<close>; a body whose \<open>path\<close> holds an object
  with a property \<open>toString\<close>, and one whose \<open>path\<close> is already a string, are
  refused.
\<close>

theorem POST_joins_path_or_rejects_witness:
  "snd (POST print_int insert_resolves (Inr mixed_path_sample))
       = [JObj [(''path'', JStr ''1truea20,,-3[object Object]''), (''lat'', JNum 47)]]
   \<and> POST print_int insert_resolves (Inr unprintable_path_sample) = (Inr internal_error, [])
   \<and> path_array (JObj [(''lat'', JNum (47::int)), (''path'', JStr ''a1b2'')]) = None
   \<and> POST print_int insert_resolves (Inr (JObj [(''lat'', JNum 47), (''path'', JStr ''a1b2'')]))
       = (Inr internal_error, [])"
proof -
  note t = POST_joins_path_or_rejects [of print_int insert_resolves]
  have d: "print_int 1 = ''1''" "print_int 20 = ''20''" "print_int (- 3) = ''-3''"
    by (simp_all add: print_int_def decimal.simps digit_def)
  have a: "map_of [(''path'', JArr [JNum 1, JBool True, JStr ''a'', JNull,
                           JArr [JNum 20, JNull, JNum (- 3)], JObj []]), (''lat'', JNum (47::int))] ''path''
     = Some (JArr [JNum 1, JBool True, JStr ''a'', JNull, JArr [JNum 20, JNull, JNum (- 3)], JObj []])"
    by simp
  have b: "list_all2 (\<lambda>x s. element_string print_int x = Inr s)
             [JNum 1, JBool True, JStr ''a'', JNull, JArr [JNum 20, JNull, JNum (- 3)], JObj []]
             [''1'', ''true'', ''a'', [], ''20,,-3'', ''[object Object]'']"
    by (simp add: d)
  from t [THEN conjunct1, rule_format, OF conjI, OF a b]
  have 1: "snd (POST print_int insert_resolves (Inr mixed_path_sample))
       = [JObj (AList.update ''path''
            (JStr (concat [''1'', ''true'', ''a'', [], ''20,,-3'', ''[object Object]'']))
            [(''path'', JArr [JNum 1, JBool True, JStr ''a'', JNull,
                           JArr [JNum 20, JNull, JNum (- 3)], JObj []]), (''lat'', JNum 47)])]"
    unfolding mixed_path_sample_def .
  have c: "map_of [(''path'', JArr [JStr ''a1'', JObj [(''toString'', JNull)]])] ''path''
             = Some (JArr [JStr ''a1'', JObj [(''toString'', (JNull :: int json))]])"
    "JObj [(''toString'', JNull)] \<in> set [JStr ''a1'', JObj [(''toString'', (JNull :: int json))]]"
    "element_string print_int (JObj [(''toString'', JNull)])
       = Inl (type_error ''Cannot convert object to primitive value'')"
    by simp_all
  from t [THEN conjunct2, THEN conjunct1, rule_format, OF conjI, OF c(1) conjI, OF c(2,3)]
  have 2: "POST print_int insert_resolves (Inr unprintable_path_sample) = (Inr internal_error, [])"
    unfolding unprintable_path_sample_def .
  have e: "path_array (JObj [(''lat'', JNum (47::int)), (''path'', JStr ''a1b2'')]) = None" by simp
  from t [THEN conjunct2, THEN conjunct2, THEN conjunct1, rule_format, OF e]
  have 3: "POST print_int insert_resolves (Inr (JObj [(''lat'', JNum 47), (''path'', JStr ''a1b2'')]))
       = (Inr internal_error, [])" .
  from 1 2 3 e show ?thesis by simp
qed
section \<open>Neighbour edges: claim C7\<close>

lemma edge_key_commute: "edge_key a b = edge_key b a"
  by (simp add: edge_key_def min.commute max.commute)

lemma dom_derive_edges_gen:
  "dom (fold (\<lambda>r edges. derive_edge edges r) rows e0)
     = dom e0 \<union> {edge_key (public_key r) (heard_by r) | r. r \<in> set rows \<and> path_len r = 0}"
proof (induction rows arbitrary: e0)
  case Nil show ?case by simp
next
  case (Cons r rows)
  show ?case
    by (simp add: Cons.IH) (auto simp: derive_edge_def upsert_edge_def)
qed

lemma dom_derive_edges:
  "dom (derive_edges rows) = {edge_key (public_key r) (heard_by r) | r. r \<in> set rows \<and> path_len r = 0}"
  by (simp add: derive_edges_def dom_derive_edges_gen)

lemma neighbor_keys_edges:
  "k' \<in> set (neighbor_keys rows k) \<Longrightarrow> edge_key k k' \<in> dom (derive_edges rows)"
  by (auto simp: neighbor_keys_def dom_derive_edges heard_by_def edge_key_commute)

text \<open>
  Claim C7. A zero-hop advert from O heard by H raises the \<open>connection_count\<close> of
  the edge (O, H) by exactly 1, sets its \<open>last_connection\<close> to the advert's ingest
  time and leaves every other edge as it was; an advert with a hop path leaves the
  whole edge index as it was.
\<close>

theorem zero_hop_advert_increments_edge:
  "(path_len r = 0 \<longrightarrow>
      count_of (derive_edge edges r) (edge_key (public_key r) (heard_by r))
        = count_of edges (edge_key (public_key r) (heard_by r)) + 1
      \<and> map_option last_connection (derive_edge edges r (edge_key (public_key r) (heard_by r)))
        = Some (ingest_timestamp r)
      \<and> (\<forall>k. k \<noteq> edge_key (public_key r) (heard_by r) \<longrightarrow> derive_edge edges r k = edges k))
   \<and> (path_len r \<noteq> 0 \<longrightarrow> derive_edge edges r = edges)"
  by (simp add: derive_edge_def upsert_edge_def count_of_def)

text \<open>
  A zero-hop advert creates the edge with count 1 and its ingest time; a relayed
  advert after it changes nothing.
\<close>

theorem zero_hop_advert_increments_edge_witness:
  "path_len zero_hop_advert = 0
   \<and> edge_key (public_key zero_hop_advert) (heard_by zero_hop_advert) = (''4757'', ''4F'')
   \<and> count_of (derive_edge Map.empty zero_hop_advert) (''4757'', ''4F'') = 1
   \<and> map_option last_connection (derive_edge Map.empty zero_hop_advert (''4757'', ''4F'')) = Some 1000
   \<and> path_len relayed_advert \<noteq> 0
   \<and> derive_edge (derive_edge Map.empty zero_hop_advert) relayed_advert
       = derive_edge Map.empty zero_hop_advert"
proof -
  have a: "path_len zero_hop_advert = 0" by (simp add: zero_hop_advert_def example_advert_def)
  have b: "path_len relayed_advert \<noteq> 0" by (simp add: relayed_advert_def example_advert_def)
  have k: "edge_key (public_key zero_hop_advert) (heard_by zero_hop_advert) = (''4757'', ''4F'')"
    by (simp add: zero_hop_advert_def example_advert_def heard_by_def hex_def hex_digit_def edge_key_def
          min_def max_def)
  have c: "count_of Map.empty (''4757'', ''4F'') = 0" by (simp add: count_of_def)
  from zero_hop_advert_increments_edge [of zero_hop_advert Map.empty] a
  have "count_of (derive_edge Map.empty zero_hop_advert) (''4757'', ''4F'') = 1"
    and "map_option last_connection (derive_edge Map.empty zero_hop_advert (''4757'', ''4F''))
          = Some (ingest_timestamp zero_hop_advert)"
    unfolding k c by simp_all
  moreover have "ingest_timestamp zero_hop_advert = 1000"
    by (simp add: zero_hop_advert_def example_advert_def)
  moreover from zero_hop_advert_increments_edge [of relayed_advert "derive_edge Map.empty zero_hop_advert"] b
  have "derive_edge (derive_edge Map.empty zero_hop_advert) relayed_advert
       = derive_edge Map.empty zero_hop_advert" by blast
  ultimately show ?thesis using a b k by simp
qed

section \<open>Deduplication: claim C2\<close>

lemma fingerprint_same_transmission:
  "same_transmission a b \<Longrightarrow> fingerprint digest a = fingerprint digest b"
  by (simp add: same_transmission_def fingerprint_def)

lemma ingest_seen:
  "fingerprint digest r \<in> seen st \<Longrightarrow> ingest digest st r = (Duplicate, st)"
  by (simp add: ingest_def check_and_register_def)

lemma ingest_all_seen:
  "\<forall>r\<in>set rs. fingerprint digest r \<in> seen st \<Longrightarrow>
   ingest_all digest st rs = (replicate (length rs) Duplicate, st)"
  by (induction rs) (simp_all add: ingest_seen)

text \<open>
  Claim C2. Records that agree in variant discriminant, origin identity, mesh time
  and payload bytes have the same fingerprint, whatever their broker and ingest
  time. Ingesting one of them and then the others, into a store that has not seen
  the fingerprint, returns \<open>Accepted\<close> for the first and \<open>Duplicate\<close> for all the
  others; the Append Log grows by the first record only, and the Materializer is
  updated at most once (once, if the record is an Advert).
\<close>

theorem same_transmission_accepted_once:
  assumes "\<forall>b\<in>set rs. same_transmission r b" and "fingerprint digest r \<notin> seen st"
  shows "(\<forall>b\<in>set rs. fingerprint digest b = fingerprint digest r)
       \<and> fst (ingest_all digest st (r # rs)) = Accepted # replicate (length rs) Duplicate
       \<and> append_log (snd (ingest_all digest st (r # rs))) = append_log st @ [r]
       \<and> materializer_updates (snd (ingest_all digest st (r # rs)))
           = materializer_updates st @ (if in_variant r = Advert then [r] else [])"
proof -
  have f: "\<forall>b\<in>set rs. fingerprint digest b = fingerprint digest r"
    using assms(1) by (metis fingerprint_same_transmission)
  define st' where "st' = snd (ingest digest st r)"
  have i: "ingest digest st r = (Accepted, st')"
    using assms(2) by (simp add: st'_def ingest_def check_and_register_def)
  have s: "seen st' = insert (fingerprint digest r) (seen st)"
    using assms(2) by (simp add: st'_def ingest_def check_and_register_def)
  have l: "append_log st' = append_log st @ [r]"
    using assms(2) by (simp add: st'_def ingest_def check_and_register_def)
  have m: "materializer_updates st' = materializer_updates st @ (if in_variant r = Advert then [r] else [])"
    using assms(2) by (simp add: st'_def ingest_def check_and_register_def)
  from f s have "\<forall>b\<in>set rs. fingerprint digest b \<in> seen st'" by simp
  then have "ingest_all digest st' rs = (replicate (length rs) Duplicate, st')"
    by (rule ingest_all_seen)
  with i l m f show ?thesis by simp
qed

text \<open>
  The two copies differ in broker and ingest time and have one fingerprint; the
  first is accepted, the second is a duplicate, and the log and the Materializer
  receive the first only.
\<close>

theorem same_transmission_accepted_once_witness:
  "same_transmission first_copy second_copy
   \<and> in_broker first_copy \<noteq> in_broker second_copy
   \<and> fingerprint identity_digest first_copy \<notin> seen empty_store
   \<and> fingerprint identity_digest second_copy = fingerprint identity_digest first_copy
   \<and> fst (ingest_all identity_digest empty_store [first_copy, second_copy]) = [Accepted, Duplicate]
   \<and> append_log (snd (ingest_all identity_digest empty_store [first_copy, second_copy])) = [first_copy]
   \<and> materializer_updates (snd (ingest_all identity_digest empty_store [first_copy, second_copy]))
       = [first_copy]"
proof -
  have a: "\<forall>b\<in>set [second_copy]. same_transmission first_copy b"
    by (simp add: same_transmission_def first_copy_def second_copy_def)
  have b: "fingerprint identity_digest first_copy \<notin> seen (empty_store :: (variant \<times> string \<times> datetime64 \<times> string) store)"
    by (simp add: empty_store_def)
  have c: "in_broker first_copy \<noteq> in_broker second_copy"
    by (simp add: first_copy_def second_copy_def)
  have d: "in_variant first_copy = Advert" by (simp add: first_copy_def)
  have e: "append_log (empty_store :: (variant \<times> string \<times> datetime64 \<times> string) store) = []"
    "materializer_updates (empty_store :: (variant \<times> string \<times> datetime64 \<times> string) store) = []"
    by (simp_all add: empty_store_def)
  from same_transmission_accepted_once [OF a b] a b c d e show ?thesis by simp
qed


end
